theory Spec2Isabelle
  imports Main
begin

section \<open>Characters, text and exceptions\<close>

text \<open>
  The program under study is \<^verbatim>\<open>src/main.py\<close>: a store of activity records kept in one
  CSV file per user (class \<^verbatim>\<open>CSVHandler\<close>) and the handlers of the main window that
  append, edit and delete records and compute the statistics.

  Python strings are modelled as \<^typ>\<open>string\<close>; a \<^typ>\<open>char\<close> stands for the Python
  character with the same code point (0 to 255).
\<close>

definition LF :: char where "LF = CHR 0x0A"
definition CR :: char where "CR = CHR 0x0D"
definition QUOTE :: char where "QUOTE = CHR 0x22"
definition COMMA :: char where "COMMA = CHR 0x2C"

datatype error =
    FileNotFoundError
  | KeyError string
  | IndexError
  | ValueError
  | TypeError
  | AttributeError
  | OSError
  | CsvError

text \<open>
  \<^verbatim>\<open>str.isspace\<close> on the code points below 256, the characters \<^verbatim>\<open>str.strip()\<close> removes.
\<close>

definition py_isspace :: "char \<Rightarrow> bool" where
  "py_isspace c =
     (let n = (of_char c :: nat)
      in (9 \<le> n \<and> n \<le> 13) \<or> (28 \<le> n \<and> n \<le> 32) \<or> n = 133 \<or> n = 160)"

definition strip :: "string \<Rightarrow> string" where
  "strip s = rev (dropWhile py_isspace (rev (dropWhile py_isspace s)))"

subsection \<open>\<^verbatim>\<open>int(str)\<close> and \<^verbatim>\<open>str(int)\<close>\<close>

text \<open>
  \<^verbatim>\<open>int(s)\<close> in base 10: surrounding whitespace is dropped, one sign is allowed, the digits
  may be separated by single underscores, and more than 4300 digits are refused. Anything
  else raises \<^verbatim>\<open>ValueError\<close>.
\<close>

definition int_space :: "char \<Rightarrow> bool" where
  "int_space c =
     (let n = (of_char c :: nat)
      in (9 \<le> n \<and> n \<le> 13) \<or> n = 32 \<or> n = 133 \<or> n = 160)"

definition is_digit :: "char \<Rightarrow> bool" where
  "is_digit c = (let n = (of_char c :: nat) in 48 \<le> n \<and> n \<le> 57)"

definition digit_val :: "char \<Rightarrow> nat" where
  "digit_val c = of_char c - 48"

fun int_digits :: "string \<Rightarrow> nat list option" where
  "int_digits [] = None"
| "int_digits [c] = (if is_digit c then Some [digit_val c] else None)"
| "int_digits (c # d # cs) =
     (if is_digit c
      then map_option (Cons (digit_val c))
             (if d = CHR ''_'' then int_digits cs else int_digits (d # cs))
      else None)"

definition py_int :: "string \<Rightarrow> error + int" where
  "py_int s =
     (let t = rev (dropWhile int_space (rev (dropWhile int_space s)));
          neg = (t \<noteq> [] \<and> hd t = CHR ''-'');
          body = (if t \<noteq> [] \<and> (hd t = CHR ''-'' \<or> hd t = CHR ''+'') then tl t else t)
      in case int_digits body of
           None \<Rightarrow> Inl ValueError
         | Some ds \<Rightarrow>
             if length ds > 4300 then Inl ValueError
             else Inr ((if neg then - 1 else 1) * foldl (\<lambda>a d. 10 * a + int d) 0 ds))"

function nat_digits :: "nat \<Rightarrow> string" where
  "nat_digits n =
     (if n < 10 then [''0123456789'' ! n]
      else nat_digits (n div 10) @ [''0123456789'' ! (n mod 10)])"
  by pat_completeness auto
termination
  by (relation "measure id") auto

definition py_str :: "int \<Rightarrow> string" where
  "py_str i = (if i < 0 then CHR ''-'' # nat_digits (nat (- i)) else nat_digits (nat i))"

section \<open>Activity records\<close>

text \<open>
  A record is the dictionary \<^verbatim>\<open>csv.DictReader\<close> builds for one row. Its keys are the names
  of the header row, each with a string or \<^verbatim>\<open>None\<close> (the reader's \<^verbatim>\<open>restval\<close> of a row that
  is too short); a row that is too long has its surplus fields under the key \<^verbatim>\<open>None\<close>
  (\<^verbatim>\<open>restkey\<close>). \<open>columns\<close> are the named entries in insertion order.
\<close>

record activity =
  columns :: "(string \<times> string option) list"
  restkey :: "string list option"

fun dict_store :: "string \<Rightarrow> string option \<Rightarrow> (string \<times> string option) list
    \<Rightarrow> (string \<times> string option) list" where
  "dict_store k v [] = [(k, v)]"
| "dict_store k v ((k', v') # d) =
     (if k' = k then (k, v) # d else (k', v') # dict_store k v d)"

definition getitem :: "activity \<Rightarrow> string \<Rightarrow> error + string option" where
  "getitem a k = (case map_of (columns a) k of None \<Rightarrow> Inl (KeyError k) | Some v \<Rightarrow> Inr v)"

definition setitem :: "activity \<Rightarrow> string \<Rightarrow> string \<Rightarrow> activity" where
  "setitem a k v = a\<lparr>columns := dict_store k (Some v) (columns a)\<rparr>"

definition setdefault :: "activity \<Rightarrow> string \<Rightarrow> string \<Rightarrow> activity" where
  "setdefault a k v =
     (if map_of (columns a) k = None then a\<lparr>columns := columns a @ [(k, Some v)]\<rparr> else a)"

section \<open>Aggregation\<close>

text \<open>
  \<^verbatim>\<open>int(activity["TimeSpent"])\<close>: \<^verbatim>\<open>KeyError\<close> without the key, \<^verbatim>\<open>TypeError\<close> on \<^verbatim>\<open>None\<close>,
  \<^verbatim>\<open>ValueError\<close> on a string that is no integer.
\<close>

definition time_spent :: "activity \<Rightarrow> error + int" where
  "time_spent a =
     (case getitem a ''TimeSpent'' of
        Inl e \<Rightarrow> Inl e
      | Inr None \<Rightarrow> Inl TypeError
      | Inr (Some s) \<Rightarrow> py_int s)"

text \<open>\<^verbatim>\<open>total_time = sum(int(activity["TimeSpent"]) for activity in activities)\<close>\<close>

fun total_time :: "activity list \<Rightarrow> error + int" where
  "total_time [] = Inr 0"
| "total_time (a # as) =
     (case time_spent a of
        Inl e \<Rightarrow> Inl e
      | Inr t \<Rightarrow> (case total_time as of Inl e \<Rightarrow> Inl e | Inr s \<Rightarrow> Inr (t + s)))"

text \<open>
  \<^verbatim>\<open>remaining_time = max(self.daily_goal - total_time, 0)\<close> of \<^verbatim>\<open>update_pie_chart\<close>, for
  the total computed in the line before it.
\<close>

definition remaining_time :: "int \<Rightarrow> int \<Rightarrow> int" where
  "remaining_time daily_goal t = max (daily_goal - t) 0"

text \<open>
  \<^verbatim>\<open>sum(int(a["TimeSpent"]) for a in activities if a["Date"] == activity["Date"])\<close>,
  the inner sum of \<^verbatim>\<open>update_stats\<close>, for the date \<open>d\<close> of the outer record.
\<close>

fun date_total :: "string option \<Rightarrow> activity list \<Rightarrow> error + int" where
  "date_total d [] = Inr 0"
| "date_total d (a # as) =
     (case getitem a ''Date'' of
        Inl e \<Rightarrow> Inl e
      | Inr d' \<Rightarrow>
          if d' = d
          then (case time_spent a of
                  Inl e \<Rightarrow> Inl e
                | Inr t \<Rightarrow> (case date_total d as of Inl e \<Rightarrow> Inl e | Inr s \<Rightarrow> Inr (t + s)))
          else date_total d as)"

text \<open>
  The set comprehension of \<^verbatim>\<open>update_stats\<close>: the dates of the records whose day reaches the
  goal, in the order the comprehension produces them (\<open>all\<close> is the whole list, the
  second list what is left of the outer loop).
\<close>

fun goal_dates :: "int \<Rightarrow> activity list \<Rightarrow> activity list \<Rightarrow> error + string option list" where
  "goal_dates daily_goal all [] = Inr []"
| "goal_dates daily_goal all (a # as) =
     (case getitem a ''Date'' of
        Inl e \<Rightarrow> Inl e
      | Inr d \<Rightarrow>
          (case date_total d all of
             Inl e \<Rightarrow> Inl e
           | Inr t \<Rightarrow>
               (case goal_dates daily_goal all as of
                  Inl e \<Rightarrow> Inl e
                | Inr ds \<Rightarrow> Inr (if t \<ge> daily_goal then d # ds else ds))))"

text \<open>\<^verbatim>\<open>days_completed_goal = len({...})\<close>: the number of distinct dates.\<close>

definition days_completed_goal :: "int \<Rightarrow> activity list \<Rightarrow> error + nat" where
  "days_completed_goal daily_goal activities =
     (case goal_dates daily_goal activities activities of
        Inl e \<Rightarrow> Inl e
      | Inr ds \<Rightarrow> Inr (length (remdups ds)))"

section \<open>The csv module\<close>

text \<open>
  The program writes through \<^verbatim>\<open>csv.writer\<close> and reads through \<^verbatim>\<open>csv.DictReader\<close>, both in
  the default (excel) dialect: delimiter comma, quote character \<^verbatim>\<open>"\<close>, doubled quotes,
  minimal quoting, line terminator CR LF, non-strict reading.
\<close>

subsection \<open>Writer\<close>

text \<open>
  A field is quoted when it holds the delimiter, the quote character or a character of the
  line terminator; quote characters inside it are doubled.
\<close>

fun needs_quoting :: "string \<Rightarrow> bool" where
  "needs_quoting [] = False"
| "needs_quoting (c # cs) =
     (c = COMMA \<or> c = QUOTE \<or> c = CR \<or> c = LF \<or> needs_quoting cs)"

fun join_append_data :: "string \<Rightarrow> string" where
  "join_append_data [] = []"
| "join_append_data (c # cs) =
     (if c = QUOTE then QUOTE # QUOTE # join_append_data cs else c # join_append_data cs)"

definition join_append :: "string \<Rightarrow> string" where
  "join_append f = (if needs_quoting f then QUOTE # join_append_data f @ [QUOTE] else f)"

fun join_fields :: "string list \<Rightarrow> string" where
  "join_fields [] = []"
| "join_fields [f] = join_append f"
| "join_fields (f # g # fs) = join_append f @ COMMA # join_fields (g # fs)"

text \<open>
  \<^verbatim>\<open>writer.writerow(row)\<close>: the text written for one row. A row of one empty field is
  written as a pair of quotes.
\<close>

definition writerow :: "string list \<Rightarrow> string" where
  "writerow row = (if row = [[]] then [QUOTE, QUOTE] else join_fields row) @ [CR, LF]"

subsection \<open>Reader\<close>

datatype parser_state =
    START_RECORD
  | START_FIELD
  | IN_FIELD
  | IN_QUOTED_FIELD
  | QUOTE_IN_QUOTED_FIELD
  | EAT_CRNL

record reader =
  r_fields :: "string list"
  r_field :: string
  r_state :: parser_state

definition field_limit :: nat where
  "field_limit = 131072"

definition parse_reset :: reader where
  "parse_reset = \<lparr>r_fields = [], r_field = [], r_state = START_RECORD\<rparr>"

definition parse_add_char :: "reader \<Rightarrow> char \<Rightarrow> error + reader" where
  "parse_add_char r c =
     (if length (r_field r) \<ge> field_limit then Inl CsvError
      else Inr (r\<lparr>r_field := r_field r @ [c]\<rparr>))"

definition parse_save_field :: "reader \<Rightarrow> reader" where
  "parse_save_field r = r\<lparr>r_fields := r_fields r @ [r_field r], r_field := []\<rparr>"

definition add_then :: "parser_state \<Rightarrow> reader \<Rightarrow> char \<Rightarrow> error + reader" where
  "add_then st r c =
     (case parse_add_char r c of Inl e \<Rightarrow> Inl e | Inr r' \<Rightarrow> Inr (r'\<lparr>r_state := st\<rparr>))"

definition save_then :: "parser_state \<Rightarrow> reader \<Rightarrow> error + reader" where
  "save_then st r = Inr ((parse_save_field r)\<lparr>r_state := st\<rparr>)"

text \<open>
  One step of the reader's state machine; \<open>None\<close> is the end-of-line marker the reader
  feeds itself after the last character of every line.
\<close>

definition start_field :: "reader \<Rightarrow> char option \<Rightarrow> error + reader" where
  "start_field r c =
     (case c of
        None \<Rightarrow> save_then START_RECORD r
      | Some ch \<Rightarrow>
          if ch = LF \<or> ch = CR then save_then EAT_CRNL r
          else if ch = QUOTE then Inr (r\<lparr>r_state := IN_QUOTED_FIELD\<rparr>)
          else if ch = COMMA then save_then START_FIELD r
          else add_then IN_FIELD r ch)"

definition parse_process_char :: "reader \<Rightarrow> char option \<Rightarrow> error + reader" where
  "parse_process_char r c =
     (case r_state r of
        START_RECORD \<Rightarrow>
          (case c of
             None \<Rightarrow> Inr r
           | Some ch \<Rightarrow>
               if ch = LF \<or> ch = CR then Inr (r\<lparr>r_state := EAT_CRNL\<rparr>)
               else start_field r c)
      | START_FIELD \<Rightarrow> start_field r c
      | IN_FIELD \<Rightarrow>
          (case c of
             None \<Rightarrow> save_then START_RECORD r
           | Some ch \<Rightarrow>
               if ch = LF \<or> ch = CR then save_then EAT_CRNL r
               else if ch = COMMA then save_then START_FIELD r
               else add_then IN_FIELD r ch)
      | IN_QUOTED_FIELD \<Rightarrow>
          (case c of
             None \<Rightarrow> Inr r
           | Some ch \<Rightarrow>
               if ch = QUOTE then Inr (r\<lparr>r_state := QUOTE_IN_QUOTED_FIELD\<rparr>)
               else add_then IN_QUOTED_FIELD r ch)
      | QUOTE_IN_QUOTED_FIELD \<Rightarrow>
          (case c of
             None \<Rightarrow> save_then START_RECORD r
           | Some ch \<Rightarrow>
               if ch = QUOTE then add_then IN_QUOTED_FIELD r ch
               else if ch = COMMA then save_then START_FIELD r
               else if ch = LF \<or> ch = CR then save_then EAT_CRNL r
               else add_then IN_FIELD r ch)
      | EAT_CRNL \<Rightarrow>
          (case c of
             None \<Rightarrow> Inr (r\<lparr>r_state := START_RECORD\<rparr>)
           | Some ch \<Rightarrow> if ch = LF \<or> ch = CR then Inr r else Inl CsvError))"

fun process_chars :: "reader \<Rightarrow> string \<Rightarrow> error + reader" where
  "process_chars r [] = Inr r"
| "process_chars r (c # cs) =
     (case parse_process_char r (Some c) of
        Inl e \<Rightarrow> Inl e
      | Inr r' \<Rightarrow> process_chars r' cs)"

definition process_line :: "reader \<Rightarrow> string \<Rightarrow> error + reader" where
  "process_line r line =
     (case process_chars r line of
        Inl e \<Rightarrow> Inl e
      | Inr r' \<Rightarrow> parse_process_char r' None)"

definition push_row :: "'a \<Rightarrow> 'a list \<times> error option \<Rightarrow> 'a list \<times> error option" where
  "push_row row res = (row # fst res, snd res)"

text \<open>
  Iterating the reader over the lines of a file: the rows it yields and the exception that
  ended the iteration, if one did. A record is complete when the machine is back in
  \<open>START_RECORD\<close> at the end of a line; at the end of the input an open quoted field (or
  pending field text) is saved as the last row.
\<close>

fun reader_rows :: "reader \<Rightarrow> string list \<Rightarrow> string list list \<times> error option" where
  "reader_rows r [] =
     (if r_field r \<noteq> [] \<or> r_state r = IN_QUOTED_FIELD
      then ([r_fields (parse_save_field r)], None)
      else ([], None))"
| "reader_rows r (line # lines) =
     (case process_line r line of
        Inl e \<Rightarrow> ([], Some e)
      | Inr r' \<Rightarrow>
          if r_state r' = START_RECORD
          then push_row (r_fields r') (reader_rows parse_reset lines)
          else reader_rows r' lines)"

subsection \<open>Text files\<close>

text \<open>
  The read paths open the file with \<^verbatim>\<open>open(user_file, "r", encoding="utf-8")\<close>, without
  \<^verbatim>\<open>newline=""\<close>: the text layer translates CR LF and a lone CR to LF (\<open>pending_cr\<close> is the
  decoder's flag that the last character was a CR) and hands out lines that end in LF.
  The write paths pass \<^verbatim>\<open>newline=""\<close> and write the text as it is.
\<close>

fun newline_decode :: "bool \<Rightarrow> string \<Rightarrow> string" where
  "newline_decode pending_cr [] = []"
| "newline_decode pending_cr (c # cs) =
     (if c = CR then LF # newline_decode True cs
      else if c = LF \<and> pending_cr then newline_decode False cs
      else c # newline_decode False cs)"

definition universal_newlines :: "string \<Rightarrow> string" where
  "universal_newlines text = newline_decode False text"

fun readlines_from :: "string \<Rightarrow> string \<Rightarrow> string list" where
  "readlines_from cur [] = (if cur = [] then [] else [cur])"
| "readlines_from cur (c # cs) =
     (if c = LF then (cur @ [c]) # readlines_from [] cs
      else readlines_from (cur @ [c]) cs)"

definition open_r :: "string \<Rightarrow> string list" where
  "open_r text = readlines_from [] (universal_newlines text)"

subsection \<open>DictReader\<close>

text \<open>
  \<^verbatim>\<open>dict(zip(fieldnames, row))\<close>, then the surplus fields under \<^verbatim>\<open>restkey\<close> or \<^verbatim>\<open>restval\<close> for
  the missing ones.
\<close>

definition make_row :: "string list \<Rightarrow> string list \<Rightarrow> activity" where
  "make_row fieldnames row =
     (let d = foldl (\<lambda>d kv. dict_store (fst kv) (Some (snd kv)) d) [] (zip fieldnames row);
          lf = length fieldnames;
          lr = length row
      in if lf < lr then \<lparr>columns = d, restkey = Some (drop lf row)\<rparr>
         else if lf > lr
         then \<lparr>columns = foldl (\<lambda>d k. dict_store k None d) d (drop lr fieldnames),
                restkey = None\<rparr>
         else \<lparr>columns = d, restkey = None\<rparr>)"

text \<open>
  The first row the reader yields is the header; rows that are empty lists are skipped.
\<close>

definition DictReader :: "string list \<Rightarrow> activity list \<times> error option" where
  "DictReader lines =
     (case reader_rows parse_reset lines of
        ([], e) \<Rightarrow> ([], e)
      | (fieldnames # rows, e) \<Rightarrow>
          (map (make_row fieldnames) (filter (\<lambda>row. row \<noteq> []) rows), e))"

section \<open>The record store\<close>

text \<open>
  The state the program acts on:
  \<^item> \<open>files\<close>: the text files by path, \<open>None\<close> where no file exists;
  \<^item> \<open>dialogs\<close>: the message boxes shown so far;
  \<^item> \<open>data_dir\<close>: whether the directory \<^verbatim>\<open>USER_DATA_DIR\<close> exists;
  \<^item> \<open>os_refuses\<close>: the answer of the operating system to the creation of a file.
    \<open>os_refuses w path\<close> is the exception with which it refuses to create a file at
    \<open>path\<close> while \<^verbatim>\<open>USER_DATA_DIR\<close> exists (\<^verbatim>\<open>FileNotFoundError\<close> when a directory of the
    path is missing, \<^verbatim>\<open>OSError\<close> when a name is too long, and so on), and \<open>None\<close> when it
    creates the file. The program creates no directory but \<^verbatim>\<open>USER_DATA_DIR\<close>, so the answer
    is the same during a run.

  Creating \<^verbatim>\<open>USER_DATA_DIR\<close> and opening a file that exists are taken to succeed; of the
  failures of a read only the missing file is modelled. The clock is the parameter
  \<open>today\<close>, the value of \<^verbatim>\<open>datetime.now().strftime("%Y-%m-%d")\<close>.
\<close>

datatype dialog = WarningBox string | CriticalBox string

record world =
  files :: "string \<Rightarrow> string option"
  dialogs :: "dialog list"
  data_dir :: bool
  os_refuses :: "string \<Rightarrow> error option"

definition USER_DATA_DIR :: string where
  "USER_DATA_DIR = ''user_data''"

definition HEADER :: "string list" where
  "HEADER = [''Date'', ''Category'', ''Activity'', ''TimeSpent'']"

definition os_path_join :: "string \<Rightarrow> string \<Rightarrow> string" where
  "os_path_join a b =
     (if b \<noteq> [] \<and> hd b = CHR ''/'' then b
      else if a = [] \<or> last a = CHR ''/'' then a @ b
      else a @ CHR ''/'' # b)"

definition user_file :: "string \<Rightarrow> string" where
  "user_file user_id = os_path_join USER_DATA_DIR (user_id @ ''_data.csv'')"

text \<open>
  \<^verbatim>\<open>open(path, "w")\<close> and \<^verbatim>\<open>open(path, "a")\<close>: the exception raised, if any. A path with
  a NUL character is refused by Python itself with \<^verbatim>\<open>ValueError\<close>; a file below
  \<^verbatim>\<open>USER_DATA_DIR\<close> cannot be created while that directory is missing.
\<close>

definition NUL :: char where "NUL = CHR 0x00"

definition below_data_dir :: "string \<Rightarrow> bool" where
  "below_data_dir path =
     (take (Suc (length USER_DATA_DIR)) path = USER_DATA_DIR @ [CHR ''/''])"

definition create_error :: "world \<Rightarrow> string \<Rightarrow> error option" where
  "create_error w path =
     (if NUL \<in> set path then Some ValueError
      else if \<not> data_dir w \<and> below_data_dir path then Some FileNotFoundError
      else os_refuses w path)"

definition open_for_writing :: "world \<Rightarrow> string \<Rightarrow> error option" where
  "open_for_writing w path = (if files w path = None then create_error w path else None)"

text \<open>\<^verbatim>\<open>except IOError\<close> catches \<^verbatim>\<open>OSError\<close> and its subclasses.\<close>

definition is_IOError :: "error \<Rightarrow> bool" where
  "is_IOError e = (e = FileNotFoundError \<or> e = OSError)"

text \<open>
  \<^verbatim>\<open>initialize_csv\<close> has no handler: what \<^verbatim>\<open>open\<close> raises reaches the caller, after
  \<^verbatim>\<open>os.makedirs(USER_DATA_DIR, exist_ok=True)\<close> has run.
\<close>

definition initialize_csv :: "string \<Rightarrow> world \<Rightarrow> error option \<times> world" where
  "initialize_csv user_id w =
     (if files w (user_file user_id) = None
      then (case create_error (w\<lparr>data_dir := True\<rparr>) (user_file user_id) of
              Some e \<Rightarrow> (Some e, w\<lparr>data_dir := True\<rparr>)
            | None \<Rightarrow>
                (None, w\<lparr>data_dir := True,
                          files := (files w)(user_file user_id \<mapsto> writerow HEADER)\<rparr>))
      else (None, w))"

text \<open>
  \<^verbatim>\<open>read_all_activities\<close> catches every exception: a missing file gives a warning box, any
  other failure an error box, and the rows read so far are returned.
\<close>

definition read_all_activities :: "string \<Rightarrow> world \<Rightarrow> activity list \<times> world" where
  "read_all_activities user_id w =
     (case files w (user_file user_id) of
        None \<Rightarrow> ([], w\<lparr>dialogs := dialogs w @ [WarningBox ''File Not Found'']\<rparr>)
      | Some text \<Rightarrow>
          (case DictReader (open_r text) of
             (rows, e) \<Rightarrow>
               (map (\<lambda>row. setdefault row ''Category'' ''Other'') rows,
                case e of
                  None \<Rightarrow> w
                | Some err \<Rightarrow> w\<lparr>dialogs := dialogs w @ [CriticalBox ''Error'']\<rparr>)))"

text \<open>
  The loop of \<^verbatim>\<open>read_activities_for_today\<close>; \<open>activities\<close> is the list built so far.
  \<^verbatim>\<open>row["Date"]\<close> raises \<^verbatim>\<open>KeyError\<close> when the header has no such column.
\<close>

fun today_rows :: "string \<Rightarrow> activity list \<Rightarrow> activity list \<Rightarrow> error + activity list" where
  "today_rows today activities [] = Inr activities"
| "today_rows today activities (row # rows) =
     (case getitem row ''Date'' of
        Inl e \<Rightarrow> Inl e
      | Inr d \<Rightarrow>
          if d = Some today
          then today_rows today (activities @ [setdefault row ''Category'' ''Other'']) rows
          else today_rows today activities rows)"

text \<open>
  \<^verbatim>\<open>read_activities_for_today\<close> catches \<^verbatim>\<open>FileNotFoundError\<close> only, with \<^verbatim>\<open>pass\<close>; every
  other exception reaches the caller.
\<close>

definition read_activities_for_today ::
    "string \<Rightarrow> string \<Rightarrow> world \<Rightarrow> (error + activity list) \<times> world" where
  "read_activities_for_today today user_id w =
     (case files w (user_file user_id) of
        None \<Rightarrow> (Inr [], w)
      | Some text \<Rightarrow>
          (case DictReader (open_r text) of
             (rows, e) \<Rightarrow>
               (case today_rows today [] rows of
                  Inl err \<Rightarrow> (Inl err, w)
                | Inr activities \<Rightarrow>
                    (case e of None \<Rightarrow> (Inr activities, w) | Some err \<Rightarrow> (Inl err, w)))))"

definition field_text :: "string option \<Rightarrow> string" where
  "field_text v = (case v of None \<Rightarrow> [] | Some s \<Rightarrow> s)"

text \<open>
  The row \<^verbatim>\<open>[activity["Date"], activity["Category"], activity["Activity"],
  activity["TimeSpent"]]\<close>; the writer writes \<^verbatim>\<open>None\<close> as the empty string.
\<close>

definition activity_row :: "activity \<Rightarrow> error + string list" where
  "activity_row a =
     (case getitem a ''Date'' of
        Inl e \<Rightarrow> Inl e
      | Inr d \<Rightarrow>
     (case getitem a ''Category'' of
        Inl e \<Rightarrow> Inl e
      | Inr c \<Rightarrow>
     (case getitem a ''Activity'' of
        Inl e \<Rightarrow> Inl e
      | Inr n \<Rightarrow>
     (case getitem a ''TimeSpent'' of
        Inl e \<Rightarrow> Inl e
      | Inr t \<Rightarrow> Inr [field_text d, field_text c, field_text n, field_text t]))))"

text \<open>
  The loop of \<^verbatim>\<open>write_activities\<close> over the text written so far. A \<^verbatim>\<open>KeyError\<close> is no
  \<^verbatim>\<open>IOError\<close>: it leaves the handler with the file holding the rows written before it.
\<close>

fun write_rows :: "string \<Rightarrow> activity list \<Rightarrow> error option \<times> string" where
  "write_rows out [] = (None, out)"
| "write_rows out (a # as) =
     (case activity_row a of
        Inl e \<Rightarrow> (Some e, out)
      | Inr row \<Rightarrow> write_rows (out @ writerow row) as)"

text \<open>
  \<^verbatim>\<open>write_activities\<close> and \<^verbatim>\<open>clear_history\<close> answer an \<^verbatim>\<open>IOError\<close> of \<^verbatim>\<open>open\<close> with an
  error box and return; any other exception reaches the caller.
\<close>

definition write_activities :: "activity list \<Rightarrow> string \<Rightarrow> world \<Rightarrow> error option \<times> world" where
  "write_activities activities user_id w =
     (case open_for_writing w (user_file user_id) of
        Some err \<Rightarrow>
          if is_IOError err
          then (None, w\<lparr>dialogs := dialogs w @ [CriticalBox ''File Error'']\<rparr>)
          else (Some err, w)
      | None \<Rightarrow>
          (case write_rows (writerow HEADER) activities of
             (e, text) \<Rightarrow> (e, w\<lparr>files := (files w)(user_file user_id \<mapsto> text)\<rparr>)))"

definition clear_history :: "string \<Rightarrow> world \<Rightarrow> error option \<times> world" where
  "clear_history user_id w =
     (case open_for_writing w (user_file user_id) of
        Some err \<Rightarrow>
          if is_IOError err
          then (None, w\<lparr>dialogs := dialogs w @ [CriticalBox ''File Error'']\<rparr>)
          else (Some err, w)
      | None \<Rightarrow> (None, w\<lparr>files := (files w)(user_file user_id \<mapsto> writerow HEADER)\<rparr>))"

section \<open>The handlers of the main window\<close>

text \<open>
  The handlers take what the widgets and dialogs deliver as parameters (the category, the
  text of the input line, the duration, the answers of the dialogs). Their refresh of the
  table and of the chart after a change only reads the store and is left out.

  \<^verbatim>\<open>add_activity\<close> opens the file in append mode, which creates it when it is missing, and
  has no handler for what \<^verbatim>\<open>open\<close> raises.
\<close>

definition add_activity ::
    "string \<Rightarrow> string \<Rightarrow> int \<Rightarrow> string \<Rightarrow> string \<Rightarrow> world
     \<Rightarrow> error option \<times> world" where
  "add_activity category text duration today user_id w =
     (let activity = strip text
      in if activity \<noteq> []
         then (case open_for_writing w (user_file user_id) of
                 Some err \<Rightarrow> (Some err, w)
               | None \<Rightarrow>
                   (None, w\<lparr>files := (files w)(user_file user_id \<mapsto>
                      (case files w (user_file user_id) of None \<Rightarrow> [] | Some old \<Rightarrow> old)
                      @ writerow [today, category, activity, py_str duration])\<rparr>))
         else (None, w))"

text \<open>
  The table of today's activities as \<^verbatim>\<open>load_activities\<close> left it: for every row the
  texts of the items of the category, the activity and the duration, \<open>None\<close> for a cell
  without an item.

  \<^verbatim>\<open>edit_activity\<close> first takes the two items of the row from the table. For a row the
  table does not have and for a cell without an item, \<^verbatim>\<open>item\<close> returns \<^verbatim>\<open>None\<close> and
  \<^verbatim>\<open>.text()\<close> raises \<^verbatim>\<open>AttributeError\<close>; \<^verbatim>\<open>int(time_item.text())\<close> raises \<^verbatim>\<open>ValueError\<close> on
  a text that is no integer. All of this happens before the store is touched. The two
  dialogs change nothing in the state; their answers are the parameters \<open>new_activity\<close>,
  \<open>ok_activity\<close>, \<open>new_time\<close> and \<open>ok_time\<close>. The conversion of the shown duration to the
  integer type of the dialog is not modelled.
\<close>

type_synonym table = "(string option \<times> string option \<times> string option) list"

definition edit_activity ::
    "nat \<Rightarrow> table \<Rightarrow> string \<Rightarrow> bool \<Rightarrow> int \<Rightarrow> bool \<Rightarrow> string \<Rightarrow> string \<Rightarrow> world
     \<Rightarrow> error option \<times> world" where
  "edit_activity row_idx activities_table new_activity ok_activity new_time ok_time today
       user_id w =
     (if row_idx \<ge> length activities_table then (Some AttributeError, w)
      else (case activities_table ! row_idx of
              (category_item, activity_item, time_item) \<Rightarrow>
     (case activity_item of
        None \<Rightarrow> (Some AttributeError, w)
      | Some shown_activity \<Rightarrow>
     (case time_item of
        None \<Rightarrow> (Some AttributeError, w)
      | Some shown_text \<Rightarrow>
     (case py_int shown_text of
        Inl e \<Rightarrow> (Some e, w)
      | Inr shown_time \<Rightarrow>
     (if ok_activity \<and> ok_time
      then (case read_activities_for_today today user_id w of
              (Inl e, w') \<Rightarrow> (Some e, w')
            | (Inr activities, w') \<Rightarrow>
                if row_idx < length activities
                then write_activities
                       (activities[row_idx :=
                          setitem (setitem (activities ! row_idx) ''Activity'' new_activity)
                            ''TimeSpent'' (py_str new_time)])
                       user_id w'
                else (Some IndexError, w'))
      else (None, w)))))))"

definition delete_activity ::
    "nat \<Rightarrow> bool \<Rightarrow> string \<Rightarrow> string \<Rightarrow> world \<Rightarrow> error option \<times> world" where
  "delete_activity row_idx confirm today user_id w =
     (if confirm
      then (case read_activities_for_today today user_id w of
              (Inl e, w') \<Rightarrow> (Some e, w')
            | (Inr activities, w') \<Rightarrow>
                if row_idx < length activities
                then write_activities
                       (take row_idx activities @ drop (Suc row_idx) activities) user_id w'
                else (Some IndexError, w'))
      else (None, w))"

text \<open>
  The numbers \<^verbatim>\<open>update_pie_chart\<close> shows: the total of today's records and what remains of
  the daily goal.
\<close>

definition update_pie_chart ::
    "int \<Rightarrow> string \<Rightarrow> string \<Rightarrow> world \<Rightarrow> (error + int \<times> int) \<times> world" where
  "update_pie_chart daily_goal today user_id w =
     (case read_activities_for_today today user_id w of
        (Inl e, w') \<Rightarrow> (Inl e, w')
      | (Inr activities, w') \<Rightarrow>
          (case total_time activities of
             Inl e \<Rightarrow> (Inl e, w')
           | Inr t \<Rightarrow> (Inr (t, remaining_time daily_goal t), w')))"

text \<open>
  The numbers \<^verbatim>\<open>update_stats\<close> shows, computed in the order of the source: the number of
  records, of distinct activity names, the total time, the number of distinct dates and
  the number of days that reach the goal.
\<close>

record stats =
  total_activities :: nat
  unique_activities :: nat
  stats_total_time :: int
  days_logged :: nat
  days_goal :: nat

fun column_values :: "string \<Rightarrow> activity list \<Rightarrow> error + string option list" where
  "column_values k [] = Inr []"
| "column_values k (a # as) =
     (case getitem a k of
        Inl e \<Rightarrow> Inl e
      | Inr v \<Rightarrow> (case column_values k as of Inl e \<Rightarrow> Inl e | Inr vs \<Rightarrow> Inr (v # vs)))"

definition update_stats :: "int \<Rightarrow> string \<Rightarrow> world \<Rightarrow> (error + stats) \<times> world" where
  "update_stats daily_goal user_id w =
     (case read_all_activities user_id w of
        (activities, w') \<Rightarrow>
     (case column_values ''Activity'' activities of
        Inl e \<Rightarrow> (Inl e, w')
      | Inr names \<Rightarrow>
     (case total_time activities of
        Inl e \<Rightarrow> (Inl e, w')
      | Inr t \<Rightarrow>
     (case column_values ''Date'' activities of
        Inl e \<Rightarrow> (Inl e, w')
      | Inr dates \<Rightarrow>
     (case days_completed_goal daily_goal activities of
        Inl e \<Rightarrow> (Inl e, w')
      | Inr n \<Rightarrow>
          (Inr \<lparr>total_activities = length activities,
                 unique_activities = length (remdups names),
                 stats_total_time = t,
                 days_logged = length (remdups dates),
                 days_goal = n\<rparr>, w'))))))"

section \<open>Stores and a stream view of the reader\<close>

text \<open>
  The file that \<^verbatim>\<open>initialize_csv\<close>, \<^verbatim>\<open>add_activity\<close>, \<^verbatim>\<open>write_activities\<close> and
  \<^verbatim>\<open>clear_history\<close> leave behind: the header row and one row of four fields for every
  record. \<open>stored\<close> is the record the four fields of a row stand for.
\<close>

definition store_text :: "string list list \<Rightarrow> string" where
  "store_text rows = writerow HEADER @ concat (map writerow rows)"

definition stored :: "string \<Rightarrow> string \<Rightarrow> string \<Rightarrow> string \<Rightarrow> activity" where
  "stored d c n t =
     \<lparr>columns = [(''Date'', Some d), (''Category'', Some c), (''Activity'', Some n),
                 (''TimeSpent'', Some t)],
      restkey = None\<rparr>"

fun stored_row :: "string list \<Rightarrow> activity" where
  "stored_row [d, c, n, t] = stored d c n t"
| "stored_row row = make_row HEADER row"

text \<open>
  The reader seen on the text instead of on its lines: after every LF, and at the end of
  a text that does not end in LF, it feeds itself the end-of-line marker. \<open>mid\<close> tells
  that the current line has characters already. The proofs about \<open>reader_rows\<close> go
  through this function.
\<close>

fun stream_rows :: "reader \<Rightarrow> bool \<Rightarrow> string \<Rightarrow> string list list \<times> error option" where
  "stream_rows r mid [] =
     (if mid
      then (case parse_process_char r None of
              Inl e \<Rightarrow> ([], Some e)
            | Inr r' \<Rightarrow>
                if r_state r' = START_RECORD
                then push_row (r_fields r') (reader_rows parse_reset [])
                else reader_rows r' [])
      else reader_rows r [])"
| "stream_rows r mid (c # cs) =
     (case parse_process_char r (Some c) of
        Inl e \<Rightarrow> ([], Some e)
      | Inr r1 \<Rightarrow>
          if c = LF
          then (case parse_process_char r1 None of
                  Inl e \<Rightarrow> ([], Some e)
                | Inr r2 \<Rightarrow>
                    if r_state r2 = START_RECORD
                    then push_row (r_fields r2) (stream_rows parse_reset False cs)
                    else stream_rows r2 False cs)
          else stream_rows r1 True cs)"

text \<open>
  The rows of a store the program has written: four fields each, none longer than the
  reader's field limit.
\<close>

definition record_rows :: "string list list \<Rightarrow> bool" where
  "record_rows rows =
     list_all (\<lambda>row. length row = 4 \<and> list_all (\<lambda>g. length g \<le> field_limit) row) rows"

text \<open>
  A submission is what one click on the submit button hands to \<^verbatim>\<open>add_activity\<close>, with the
  date of that moment; \<open>submitted\<close> is the row \<^verbatim>\<open>add_activity\<close> writes for it, and
  \<open>add_activities\<close> the state after a sequence of submissions.
\<close>

record submission =
  s_today :: string
  s_category :: string
  s_text :: string
  s_duration :: int

definition submitted :: "submission \<Rightarrow> string list" where
  "submitted s = [s_today s, s_category s, strip (s_text s), py_str (s_duration s)]"

fun add_activities :: "submission list \<Rightarrow> string \<Rightarrow> world \<Rightarrow> world" where
  "add_activities [] user_id w = w"
| "add_activities (s # ss) user_id w =
     add_activities ss user_id
       (snd (add_activity (s_category s) (s_text s) (s_duration s) (s_today s) user_id w))"

section \<open>Example data\<close>

text \<open>Two records of 2024-01-02 and one of 2024-01-03.\<close>

definition three_records :: "activity list" where
  "three_records =
     [stored ''2024-01-02'' ''Work'' ''Email'' ''30'', stored ''2024-01-02'' ''Work'' ''Call'' ''40'',
      stored ''2024-01-03'' ''Work'' ''Call'' ''10'']"

text \<open>
  The operating system of the examples: it creates a file whose path is \<^verbatim>\<open>USER_DATA_DIR\<close>
  followed by a name without a further separator, and refuses every other path as one
  with a missing directory, as it does for \<^verbatim>\<open>user_data/a/b_data.csv\<close> while \<^verbatim>\<open>user_data\<close>
  holds no directory \<^verbatim>\<open>a\<close>.
\<close>

definition only_in_data_dir :: "string \<Rightarrow> error option" where
  "only_in_data_dir path =
     (if below_data_dir path \<and> CHR ''/'' \<notin> set (drop (Suc (length USER_DATA_DIR)) path)
      then None else Some FileNotFoundError)"

text \<open>
  The state before the first start of the program; a store with one record of 2024-01-01
  and one of 2024-01-02; a store with two records of 2024-01-02; a store whose only row
  has the date and nothing else; and a store of the older layout without the category
  column.
\<close>

definition empty_world :: world where
  "empty_world =
     \<lparr>files = Map.empty, dialogs = [], data_dir = False, os_refuses = only_in_data_dir\<rparr>"

definition two_days :: world where
  "two_days =
     \<lparr>files = [user_file ''u'' \<mapsto>
        store_text [[''2024-01-01'', ''Work'', ''Email'', ''30''],
                    [''2024-01-02'', ''Work'', ''Call'', ''40'']]],
      dialogs = [], data_dir = True, os_refuses = only_in_data_dir\<rparr>"

definition one_day :: world where
  "one_day =
     \<lparr>files = [user_file ''u'' \<mapsto>
        store_text [[''2024-01-02'', ''Work'', ''Email'', ''30''],
                    [''2024-01-02'', ''Work'', ''Call'', ''40'']]],
      dialogs = [], data_dir = True, os_refuses = only_in_data_dir\<rparr>"

definition short_row :: world where
  "short_row =
     \<lparr>files = [user_file ''u'' \<mapsto> store_text [[''2024-01-01'']]],
      dialogs = [], data_dir = True, os_refuses = only_in_data_dir\<rparr>"

definition old_layout :: world where
  "old_layout =
     \<lparr>files = [user_file ''u'' \<mapsto>
        writerow [''Date'', ''Activity'', ''TimeSpent'']
        @ writerow [''2024-01-02'', ''Email'', ''30'']],
      dialogs = [], data_dir = True, os_refuses = only_in_data_dir\<rparr>"

section \<open>Properties of the aggregation\<close>

lemma total_time_values:
  "map time_spent activities = map Inr ts \<Longrightarrow> total_time activities = Inr (sum_list ts)"
  by (induction activities arbitrary: ts) auto

lemma time_spent_30: "time_spent (stored d c n ''30'') = Inr 30"
  by code_simp

lemma time_spent_40: "time_spent (stored d c n ''40'') = Inr 40"
  by code_simp

lemma time_spent_10: "time_spent (stored d c n ''10'') = Inr 10"
  by code_simp

lemma goal_dates_antimono:
  "g1 \<le> g2 \<Longrightarrow>
   (case goal_dates g1 all activities of
      Inl e \<Rightarrow> goal_dates g2 all activities = Inl e
    | Inr ds1 \<Rightarrow> (\<exists>ds2. goal_dates g2 all activities = Inr ds2 \<and> set ds2 \<subseteq> set ds1))"
  by (induction activities) (auto split: sum.splits)

lemma length_remdups_subset:
  "set xs \<subseteq> set ys \<Longrightarrow> length (remdups xs) \<le> length (remdups ys)"
  by (simp add: length_remdups_card_conv card_mono)

text \<open>
  Claim C5. For a fixed list of records and goals \<open>g1 \<le> g2\<close>, the number of days that
  reach the goal \<open>g2\<close> is at most the number of days that reach \<open>g1\<close>: the count returns
  for \<open>g2\<close> whenever it returns for \<open>g1\<close>, and where it raises it raises the same exception
  for both goals.
\<close>

theorem days_completed_goal_antimono:
  assumes "g1 \<le> g2"
  shows "case days_completed_goal g1 activities of
           Inl e \<Rightarrow> days_completed_goal g2 activities = Inl e
         | Inr n1 \<Rightarrow> (\<exists>n2. days_completed_goal g2 activities = Inr n2 \<and> n2 \<le> n1)"
  using goal_dates_antimono [OF assms, of activities activities]
  by (auto simp: days_completed_goal_def length_remdups_subset split: sum.splits)

lemma days_three_records_5: "days_completed_goal 5 three_records = Inr 2"
  by code_simp

lemma days_three_records_60: "days_completed_goal 60 three_records = Inr 1"
  by code_simp

theorem days_completed_goal_antimono_witness:
  "(5::int) \<le> 60
   \<and> days_completed_goal 5 three_records = Inr 2
   \<and> days_completed_goal 60 three_records = Inr 1"
  using days_completed_goal_antimono [of 5 60 three_records]
  by (simp add: days_three_records_5 days_three_records_60)

section \<open>Evaluation and the simple store operations\<close>

lemmas csv_eval = DictReader_def open_r_def universal_newlines_def writerow_def HEADER_def
  join_append_def COMMA_def QUOTE_def CR_def LF_def process_line_def parse_process_char_def
  start_field_def add_then_def save_then_def parse_add_char_def parse_save_field_def
  parse_reset_def field_limit_def push_row_def make_row_def store_text_def

lemmas store_eval = read_all_activities_def read_activities_for_today_def write_activities_def
  activity_row_def field_text_def getitem_def setitem_def setdefault_def stored_def
  edit_activity_def delete_activity_def add_activity_def initialize_csv_def

lemma strip_blank: "\<forall>c\<in>set s. py_isspace c \<Longrightarrow> strip s = []"
proof -
  assume "\<forall>c\<in>set s. py_isspace c"
  then have h: "dropWhile py_isspace s = []" by (simp add: dropWhile_eq_Nil_conv)
  show ?thesis unfolding strip_def h by simp
qed

text \<open>
  Claim C10. Submitting an activity whose name is empty or consists of whitespace only
  changes nothing: the files and the message boxes are as before, so nothing is appended
  and no error is reported.
\<close>

theorem add_activity_blank_name:
  assumes "\<forall>c\<in>set text. py_isspace c"
  shows "add_activity category text duration today user_id w = (None, w)"
  using assms by (simp add: add_activity_def strip_blank)

theorem add_activity_blank_name_witness:
  "py_isspace (CHR '' '')
   \<and> add_activity ''Work'' ''  '' 5 ''2024-01-02'' ''u'' two_days = (None, two_days)"
  using add_activity_blank_name [of "''  ''" "''Work''" 5 "''2024-01-02''" "''u''" two_days]
  by (simp add: py_isspace_def)

lemma header_only_rows: "DictReader (open_r (writerow HEADER)) = ([], None)"
  by (simp add: csv_eval)


lemma only_in_data_dir_u: "only_in_data_dir (user_file ''u'') = None"
  by (simp add: only_in_data_dir_def below_data_dir_def user_file_def os_path_join_def
      USER_DATA_DIR_def)


lemma no_nul_u: "NUL \<notin> set (user_file ''u'')"
  by (simp add: user_file_def os_path_join_def USER_DATA_DIR_def NUL_def)





text \<open>
  Claim C8. When the user's file is missing, \<^verbatim>\<open>read_all_activities\<close> returns no records and
  shows one warning box, while \<^verbatim>\<open>read_activities_for_today\<close> returns no records, raises
  nothing and leaves the message boxes as they are.
\<close>

theorem missing_store_reads:
  assumes "files w (user_file user_id) = None"
  shows "read_all_activities user_id w
           = ([], w\<lparr>dialogs := dialogs w @ [WarningBox ''File Not Found'']\<rparr>)
     \<and> read_activities_for_today today user_id w = (Inr [], w)"
  using assms by (simp add: read_all_activities_def read_activities_for_today_def)

theorem missing_store_reads_witness:
  "files empty_world (user_file ''u'') = None
   \<and> read_all_activities ''u'' empty_world
       = ([], empty_world\<lparr>dialogs := [WarningBox ''File Not Found'']\<rparr>)
   \<and> read_activities_for_today ''2024-01-02'' ''u'' empty_world = (Inr [], empty_world)"
  using missing_store_reads [of empty_world "''u''" "''2024-01-02''"]
  by (simp add: empty_world_def)

lemma two_days_rows:
  "DictReader (open_r (store_text [[''2024-01-01'', ''Work'', ''Email'', ''30''], [''2024-01-02'', ''Work'', ''Call'', ''40'']]))
     = ([stored ''2024-01-01'' ''Work'' ''Email'' ''30'', stored ''2024-01-02'' ''Work'' ''Call'' ''40''], None)"
  by (simp add: csv_eval stored_def)

lemma two_days_all: "fst (read_all_activities ''u'' two_days) = [stored ''2024-01-01'' ''Work'' ''Email'' ''30'', stored ''2024-01-02'' ''Work'' ''Call'' ''40'']"
  by (simp add: two_days_def read_all_activities_def two_days_rows) (simp add: setdefault_def stored_def)

lemma two_days_today: "read_activities_for_today ''2024-01-02'' ''u'' two_days = (Inr [stored ''2024-01-02'' ''Work'' ''Call'' ''40''], two_days)"
  by (simp add: two_days_def read_activities_for_today_def two_days_rows) (simp add: setdefault_def stored_def getitem_def)

lemma two_days_exists: "files two_days (user_file ''u'') \<noteq> None"
  by (simp add: two_days_def)

lemma write_activities_existing:
  assumes "files w (user_file user_id) \<noteq> None"
  shows "write_activities activities user_id w
     = (case write_rows (writerow HEADER) activities of
          (e, body) \<Rightarrow> (e, w\<lparr>files := (files w)(user_file user_id \<mapsto> body)\<rparr>))"
  using assms by (auto simp: write_activities_def open_for_writing_def)

section \<open>The pie chart\<close>

lemma one_day_rows:
  "DictReader (open_r (store_text [[''2024-01-02'', ''Work'', ''Email'', ''30''],
      [''2024-01-02'', ''Work'', ''Call'', ''40'']]))
     = ([stored ''2024-01-02'' ''Work'' ''Email'' ''30'',
         stored ''2024-01-02'' ''Work'' ''Call'' ''40''], None)"
  by (simp add: csv_eval stored_def)

lemma one_day_today:
  "read_activities_for_today ''2024-01-02'' ''u'' one_day
     = (Inr [stored ''2024-01-02'' ''Work'' ''Email'' ''30'',
             stored ''2024-01-02'' ''Work'' ''Call'' ''40''], one_day)"
  by (simp add: one_day_def read_activities_for_today_def one_day_rows)
     (simp add: setdefault_def stored_def getitem_def)

text \<open>
  Claim C6. Whenever \<^verbatim>\<open>update_pie_chart\<close> returns, the remaining time it shows is
  \<open>max (goal - total) 0\<close> for the total it shows, and is never negative. For every list of
  today's records whose durations read as the integers \<open>ts\<close> it returns the sum of \<open>ts\<close>
  as the total and \<open>max (goal - sum ts) 0\<close> as the remaining time; the total of no records
  is 0.
\<close>

theorem update_pie_chart_remaining:
  assumes "read_activities_for_today today user_id w = (Inr activities, w')"
    and "map time_spent activities = map Inr ts"
  shows "update_pie_chart daily_goal today user_id w
           = (Inr (sum_list ts, max (daily_goal - sum_list ts) 0), w')
     \<and> total_time activities = Inr (sum_list ts)
     \<and> total_time [] = Inr 0
     \<and> (\<forall>g t r v. update_pie_chart g today user_id w = (Inr (t, r), v)
            \<longrightarrow> r = max (g - t) 0 \<and> 0 \<le> r)"
  using assms
  by (auto simp: update_pie_chart_def remaining_time_def total_time_values)

theorem update_pie_chart_remaining_witness:
  "read_activities_for_today ''2024-01-02'' ''u'' one_day
     = (Inr [stored ''2024-01-02'' ''Work'' ''Email'' ''30'',
             stored ''2024-01-02'' ''Work'' ''Call'' ''40''], one_day)
   \<and> map time_spent [stored ''2024-01-02'' ''Work'' ''Email'' ''30'',
        stored ''2024-01-02'' ''Work'' ''Call'' ''40''] = map Inr [30, 40]
   \<and> update_pie_chart 60 ''2024-01-02'' ''u'' one_day = (Inr (70, 0), one_day)
   \<and> update_pie_chart 100 ''2024-01-02'' ''u'' one_day = (Inr (70, 30), one_day)"
proof -
  have ts: "map time_spent [stored ''2024-01-02'' ''Work'' ''Email'' ''30'',
        stored ''2024-01-02'' ''Work'' ''Call'' ''40''] = map Inr [30, 40]"
    by (simp add: time_spent_30 time_spent_40)
  from update_pie_chart_remaining [OF one_day_today ts, of 60]
    update_pie_chart_remaining [OF one_day_today ts, of 100] one_day_today ts
  show ?thesis by simp
qed

section \<open>Editing and deleting\<close>

lemma py_str_35: "py_str 35 = ''35''"
  by code_simp

lemma py_int_40: "py_int ''40'' = Inr 40"
  by code_simp

lemma py_str_5: "py_str 5 = ''5''"
  by code_simp

lemma one_today_rows:
  "DictReader (open_r (store_text [[''2024-01-02'', ''Work'', ''Mail'', ''35'']]))
     = ([stored ''2024-01-02'' ''Work'' ''Mail'' ''35''], None)"
  by (simp add: csv_eval stored_def)

lemma two_days_edit:
  "edit_activity 0 [(Some ''Work'', Some ''Call'', Some ''40'')] ''Mail'' True 35 True ''2024-01-02''
          ''u'' two_days
     = (None, two_days\<lparr>files := (files two_days)(user_file ''u'' \<mapsto>
          store_text [[''2024-01-02'', ''Work'', ''Mail'', ''35'']])\<rparr>)"
  by (simp add: edit_activity_def two_days_today py_str_35 py_int_40
        write_activities_existing two_days_exists)
     (simp add: activity_row_def getitem_def setitem_def stored_def field_text_def
        store_text_def)

lemma two_days_delete:
  "delete_activity 0 True ''2024-01-02'' ''u'' two_days
     = (None, two_days\<lparr>files := (files two_days)(user_file ''u'' \<mapsto> store_text [])\<rparr>)"
  by (simp add: delete_activity_def two_days_today write_activities_existing two_days_exists)
     (simp add: store_text_def)

text \<open>
  Claim C1 does not hold of the code. \<^verbatim>\<open>edit_activity\<close> and \<^verbatim>\<open>delete_activity\<close> read the
  records of the current day only and write that list back as the whole file. In the
  store with a record of 2024-01-01 and a record of 2024-01-02, editing row 0 of the
  table on 2024-01-02 leaves the edited record alone in the file, and deleting row 0
  leaves no record at all: the record of 2024-01-01 is gone in both cases.
\<close>

theorem edit_delete_drop_other_days:
  "fst (read_all_activities ''u'' two_days)
     = [stored ''2024-01-01'' ''Work'' ''Email'' ''30'', stored ''2024-01-02'' ''Work'' ''Call'' ''40'']
   \<and> fst (edit_activity 0 [(Some ''Work'', Some ''Call'', Some ''40'')] ''Mail'' True 35 True ''2024-01-02''
          ''u'' two_days) = None
   \<and> fst (read_all_activities ''u''
        (snd (edit_activity 0 [(Some ''Work'', Some ''Call'', Some ''40'')] ''Mail'' True 35 True ''2024-01-02''
          ''u'' two_days)))
     = [stored ''2024-01-02'' ''Work'' ''Mail'' ''35'']
   \<and> fst (delete_activity 0 True ''2024-01-02'' ''u'' two_days) = None
   \<and> fst (read_all_activities ''u'' (snd (delete_activity 0 True ''2024-01-02'' ''u'' two_days))) = []"
proof -
  have e: "fst (read_all_activities ''u''
        (snd (edit_activity 0 [(Some ''Work'', Some ''Call'', Some ''40'')] ''Mail'' True 35 True ''2024-01-02''
          ''u'' two_days)))
     = [stored ''2024-01-02'' ''Work'' ''Mail'' ''35'']"
    by (simp add: two_days_edit read_all_activities_def one_today_rows)
       (simp add: setdefault_def stored_def)
  have d: "fst (read_all_activities ''u'' (snd (delete_activity 0 True ''2024-01-02'' ''u'' two_days))) = []"
    by (simp add: two_days_delete read_all_activities_def store_text_def header_only_rows)
  from e d show ?thesis
    by (simp add: two_days_all two_days_edit two_days_delete)
qed

section \<open>Carriage returns\<close>

lemma strip_cr_name: "strip [CHR ''a'', CR, CHR ''b''] = [CHR ''a'', CR, CHR ''b'']"
  by (simp add: strip_def py_isspace_def CR_def)

lemma cr_rows:
  "DictReader (open_r (writerow HEADER
      @ writerow [''2024-01-02'', ''Work'', [CHR ''a'', CR, CHR ''b''], ''5'']))
     = ([stored ''2024-01-02'' ''Work'' [CHR ''a'', LF, CHR ''b''] ''5''], None)"
  by (simp add: csv_eval stored_def)

text \<open>
  Claim C2 does not hold of the code. The write paths open the file with
  \<^verbatim>\<open>newline=""\<close>, the read paths without it, so a carriage return inside a field comes
  back as a line feed. Appending the activity name \<^verbatim>\<open>a\rb\<close> to a freshly initialized
  store and reading all records returns the name \<^verbatim>\<open>a\nb\<close>.
\<close>

theorem carriage_return_not_read_back:
  "fst (initialize_csv ''u'' empty_world) = None
   \<and> fst (add_activity ''Work'' [CHR ''a'', CR, CHR ''b''] 5 ''2024-01-02'' ''u''
         (snd (initialize_csv ''u'' empty_world))) = None
   \<and> fst (read_all_activities ''u''
      (snd (add_activity ''Work'' [CHR ''a'', CR, CHR ''b''] 5 ''2024-01-02'' ''u''
         (snd (initialize_csv ''u'' empty_world)))))
     = [stored ''2024-01-02'' ''Work'' [CHR ''a'', LF, CHR ''b''] ''5'']
   \<and> stored ''2024-01-02'' ''Work'' [CHR ''a'', LF, CHR ''b''] ''5''
       \<noteq> stored ''2024-01-02'' ''Work'' [CHR ''a'', CR, CHR ''b''] ''5''"
proof -
  have init: "initialize_csv ''u'' empty_world
      = (None, empty_world\<lparr>data_dir := True,
           files := (files empty_world)(user_file ''u'' \<mapsto> writerow HEADER)\<rparr>)"
    by (simp add: initialize_csv_def create_error_def no_nul_u)
       (simp add: empty_world_def only_in_data_dir_u)
  have added: "add_activity ''Work'' [CHR ''a'', CR, CHR ''b''] 5 ''2024-01-02'' ''u''
        (snd (initialize_csv ''u'' empty_world))
      = (None, empty_world\<lparr>data_dir := True,
           files := (files empty_world)(user_file ''u'' \<mapsto> writerow HEADER
             @ writerow [''2024-01-02'', ''Work'', [CHR ''a'', CR, CHR ''b''], ''5''])\<rparr>)"
    by (simp add: init add_activity_def strip_cr_name open_for_writing_def py_str_5)
  have first: "fst (initialize_csv ''u'' empty_world) = None"
    by (simp add: init)
  show ?thesis
    unfolding added
    by (simp add: first read_all_activities_def cr_rows)
       (simp add: setdefault_def stored_def CR_def LF_def)
qed

section \<open>Dictionaries of rows\<close>

lemma map_of_dict_store: "map_of (dict_store k v d) = (map_of d)(k \<mapsto> v)"
  by (induction d) (auto simp: fun_eq_iff)

lemma fold_zip_keys:
  "map_of (foldl (\<lambda>d kv. dict_store (fst kv) (Some (snd kv)) d) d0 kvs) k = None
     \<longleftrightarrow> map_of d0 k = None \<and> k \<notin> fst ` set kvs"
  by (induction kvs arbitrary: d0) (auto simp: map_of_dict_store)

lemma fold_restval_keys:
  "map_of (foldl (\<lambda>d k. dict_store k None d) d0 ks) k = None
     \<longleftrightarrow> map_of d0 k = None \<and> k \<notin> set ks"
  by (induction ks arbitrary: d0) (auto simp: map_of_dict_store)

lemma fst_set_zip: "fst ` set (zip xs ys) = set (take (length ys) xs)"
proof -
  have "map fst (zip xs ys) = take (length ys) xs"
    by (induction xs ys rule: list_induct2') auto
  then show ?thesis by (metis list.set_map)
qed

text \<open>The keys of a row dictionary are the names of the header.\<close>

lemma make_row_keys:
  "map_of (columns (make_row fieldnames row)) k = None \<longleftrightarrow> k \<notin> set fieldnames"
proof -
  have "set (take (length row) fieldnames) \<union> set (drop (length row) fieldnames)
          = set fieldnames"
    by (metis append_take_drop_id set_append)
  then show ?thesis
    by (auto simp: make_row_def Let_def fold_zip_keys fold_restval_keys fst_set_zip)
qed

lemma getitem_make_row:
  "k \<in> set fieldnames \<Longrightarrow> \<exists>v. getitem (make_row fieldnames row) k = Inr v"
  using make_row_keys [of fieldnames row k]
  by (auto simp: getitem_def split: option.splits)

lemma setdefault_absent:
  assumes "map_of (columns a) k = None"
  shows "getitem (setdefault a k v) k = Inr (Some v)"
    and "k' \<noteq> k \<Longrightarrow> getitem (setdefault a k v) k' = getitem a k'"
    and "restkey (setdefault a k v) = restkey a"
  using assms by (auto simp: setdefault_def getitem_def map_add_def split: option.splits)

lemma setdefault_other_key:
  "k' \<noteq> k \<Longrightarrow> getitem (setdefault a k v) k' = getitem a k'"
  by (auto simp: setdefault_def getitem_def map_add_def split: option.splits)

text \<open>
  The loop of \<^verbatim>\<open>read_activities_for_today\<close> returns when every row has the key
  \<^verbatim>\<open>Date\<close>; it then keeps the rows of the day, in order.
\<close>

lemma today_rows_filter:
  assumes "\<forall>row\<in>set rows. \<exists>d. getitem row ''Date'' = Inr d"
  shows "today_rows today activities rows
     = Inr (activities @ map (\<lambda>row. setdefault row ''Category'' ''Other'')
              (filter (\<lambda>row. getitem row ''Date'' = Inr (Some today)) rows))"
  using assms by (induction rows arbitrary: activities) auto

lemma filter_after_setdefault:
  "filter (\<lambda>a. getitem a ''Date'' = Inr (Some today))
      (map (\<lambda>row. setdefault row ''Category'' ''Other'') rows)
   = map (\<lambda>row. setdefault row ''Category'' ''Other'')
      (filter (\<lambda>row. getitem row ''Date'' = Inr (Some today)) rows)"
  by (induction rows) (auto simp: setdefault_other_key)

lemma read_today_is_filter:
  assumes "files w (user_file user_id) = Some text"
    and "DictReader (open_r text) = (rows, None)"
    and "\<forall>row\<in>set rows. \<exists>d. getitem row ''Date'' = Inr d"
  shows "read_activities_for_today today user_id w
     = (Inr (filter (\<lambda>a. getitem a ''Date'' = Inr (Some today))
               (fst (read_all_activities user_id w))), w)"
  using assms
  by (simp add: read_activities_for_today_def read_all_activities_def today_rows_filter
      filter_after_setdefault)

text \<open>
  Claim C9, amended. When the header of the file has no column \<^verbatim>\<open>Category\<close>, every record
  of the file is returned by \<^verbatim>\<open>read_all_activities\<close> with the category \<^verbatim>\<open>Other\<close> and with
  all its other entries as the reader built them; when the header has a \<^verbatim>\<open>Date\<close> column
  and the reader fails nowhere, \<^verbatim>\<open>read_activities_for_today\<close> returns those of these
  records that carry the date of the day.
\<close>

theorem category_default_without_column:
  assumes "files w (user_file user_id) = Some text"
    and "reader_rows parse_reset (open_r text) = (fieldnames # rows, e)"
    and "''Category'' \<notin> set fieldnames"
  shows "list_all2
           (\<lambda>a row. getitem a ''Category'' = Inr (Some ''Other'')
              \<and> restkey a = restkey (make_row fieldnames row)
              \<and> (\<forall>k. k \<noteq> ''Category'' \<longrightarrow> getitem a k = getitem (make_row fieldnames row) k))
           (fst (read_all_activities user_id w)) (filter (\<lambda>row. row \<noteq> []) rows)
     \<and> (''Date'' \<in> set fieldnames \<and> e = None \<longrightarrow>
          read_activities_for_today today user_id w
            = (Inr (filter (\<lambda>a. getitem a ''Date'' = Inr (Some today))
                      (fst (read_all_activities user_id w))), w))"
proof -
  let ?rows = "map (make_row fieldnames) (filter (\<lambda>row. row \<noteq> []) rows)"
  have dr: "DictReader (open_r text) = (?rows, e)"
    using assms(2) by (simp add: DictReader_def)
  have absent: "map_of (columns (make_row fieldnames row)) ''Category'' = None" for row
    using assms(3) by (simp add: make_row_keys)
  have all: "fst (read_all_activities user_id w)
      = map (\<lambda>row. setdefault (make_row fieldnames row) ''Category'' ''Other'')
          (filter (\<lambda>row. row \<noteq> []) rows)"
    using assms(1) dr by (simp add: read_all_activities_def comp_def)
  have first: "list_all2
           (\<lambda>a row. getitem a ''Category'' = Inr (Some ''Other'')
              \<and> restkey a = restkey (make_row fieldnames row)
              \<and> (\<forall>k. k \<noteq> ''Category'' \<longrightarrow> getitem a k = getitem (make_row fieldnames row) k))
           (fst (read_all_activities user_id w)) (filter (\<lambda>row. row \<noteq> []) rows)"
    unfolding all list_all2_map1
    by (rule list_all2_refl) (simp add: setdefault_absent [OF absent])
  have second: "read_activities_for_today today user_id w
            = (Inr (filter (\<lambda>a. getitem a ''Date'' = Inr (Some today))
                      (fst (read_all_activities user_id w))), w)"
    if "''Date'' \<in> set fieldnames" "e = None"
  proof (rule read_today_is_filter [OF assms(1)])
    show "DictReader (open_r text) = (?rows, None)"
      using dr that(2) by simp
    show "\<forall>row\<in>set ?rows. \<exists>d. getitem row ''Date'' = Inr d"
      using getitem_make_row [OF that(1)] by auto
  qed
  from first second show ?thesis by blast
qed

lemma old_layout_rows:
  "reader_rows parse_reset
     (open_r (writerow [''Date'', ''Activity'', ''TimeSpent''] @ writerow [''2024-01-02'', ''Email'', ''30'']))
   = ([''Date'', ''Activity'', ''TimeSpent''] # [[''2024-01-02'', ''Email'', ''30'']], None)"
  by (simp add: csv_eval)

theorem category_default_without_column_witness:
  "files old_layout (user_file ''u'')
     = Some (writerow [''Date'', ''Activity'', ''TimeSpent''] @ writerow [''2024-01-02'', ''Email'', ''30''])
   \<and> fst (read_all_activities ''u'' old_layout)
     = [\<lparr>columns = [(''Date'', Some ''2024-01-02''), (''Activity'', Some ''Email''),
          (''TimeSpent'', Some ''30''), (''Category'', Some ''Other'')], restkey = None\<rparr>]
   \<and> read_activities_for_today ''2024-01-02'' ''u'' old_layout
     = (Inr [\<lparr>columns = [(''Date'', Some ''2024-01-02''), (''Activity'', Some ''Email''),
          (''TimeSpent'', Some ''30''), (''Category'', Some ''Other'')], restkey = None\<rparr>],
        old_layout)"
proof -
  have f: "files old_layout (user_file ''u'')
     = Some (writerow [''Date'', ''Activity'', ''TimeSpent''] @ writerow [''2024-01-02'', ''Email'', ''30''])"
    by (simp add: old_layout_def)
  have a: "fst (read_all_activities ''u'' old_layout)
     = [\<lparr>columns = [(''Date'', Some ''2024-01-02''), (''Activity'', Some ''Email''),
          (''TimeSpent'', Some ''30''), (''Category'', Some ''Other'')], restkey = None\<rparr>]"
    using f old_layout_rows
    by (simp add: read_all_activities_def DictReader_def)
       (simp add: make_row_def setdefault_def)
  from category_default_without_column [OF f old_layout_rows, of "''2024-01-02''"] a f
  show ?thesis by (simp add: getitem_def)
qed

lemma short_rows:
  "DictReader (open_r (store_text [[''2024-01-01'']]))
    = ([\<lparr>columns = [(''Date'', Some ''2024-01-01''), (''Category'', None), (''Activity'', None),
          (''TimeSpent'', None)], restkey = None\<rparr>], None)"
  by (simp add: csv_eval)

text \<open>
  Claim C9 as stated fails: under the header the program writes, a row that stops after
  the date has no category field, and both read operations return it with the category
  \<^verbatim>\<open>None\<close>, not with a label. \<^verbatim>\<open>DictReader\<close> has filled the missing fields with
  \<^verbatim>\<open>None\<close> before \<^verbatim>\<open>setdefault\<close> runs, so the key is present.
\<close>

theorem short_row_category_is_none:
  "fst (read_all_activities ''u'' short_row)
     = [\<lparr>columns = [(''Date'', Some ''2024-01-01''), (''Category'', None), (''Activity'', None),
          (''TimeSpent'', None)], restkey = None\<rparr>]
   \<and> fst (read_activities_for_today ''2024-01-01'' ''u'' short_row)
     = Inr [\<lparr>columns = [(''Date'', Some ''2024-01-01''), (''Category'', None), (''Activity'', None),
          (''TimeSpent'', None)], restkey = None\<rparr>]
   \<and> getitem \<lparr>columns = [(''Date'', Some ''2024-01-01''), (''Category'', None), (''Activity'', None),
          (''TimeSpent'', None)], restkey = None\<rparr> ''Category'' = Inr None"
  by (simp add: short_row_def read_all_activities_def read_activities_for_today_def short_rows)
     (simp add: setdefault_def getitem_def)

section \<open>Newline translation of written rows\<close>

lemma newline_decode_append:
  "newline_decode b (xs @ ys)
     = newline_decode b xs @ newline_decode (if xs = [] then b else last xs = CR) ys"
  by (induction xs arbitrary: b) auto

lemma newline_decode_no_cr: "CR \<notin> set xs \<Longrightarrow> newline_decode False xs = xs"
  by (induction xs) auto

lemma newline_decode_has_no_cr: "CR \<notin> set (newline_decode b xs)"
  by (induction xs arbitrary: b) (auto simp: CR_def LF_def)

lemma newline_decode_length: "length (newline_decode b xs) \<le> length xs"
  by (induction xs arbitrary: b) (auto intro: le_SucI)

lemma newline_decode_idem:
  "newline_decode False (newline_decode b xs) = newline_decode b xs"
  by (simp add: newline_decode_no_cr newline_decode_has_no_cr)

lemma needs_quoting_iff:
  "needs_quoting f \<longleftrightarrow> COMMA \<in> set f \<or> QUOTE \<in> set f \<or> CR \<in> set f \<or> LF \<in> set f"
  by (induction f) auto

lemma newline_decode_other:
  "c \<noteq> CR \<Longrightarrow> c \<noteq> LF \<Longrightarrow> c \<in> set (newline_decode b f) \<longleftrightarrow> c \<in> set f"
  by (induction f arbitrary: b) auto

lemma newline_decode_lf:
  "LF \<in> set (newline_decode False f) \<longleftrightarrow> LF \<in> set f \<or> CR \<in> set f"
proof
  show "LF \<in> set (newline_decode False f) \<Longrightarrow> LF \<in> set f \<or> CR \<in> set f"
  proof -
    have "LF \<in> set (newline_decode b f) \<Longrightarrow> LF \<in> set f \<or> CR \<in> set f" for b
      by (induction f arbitrary: b) (auto split: if_splits)
    then show "LF \<in> set (newline_decode False f) \<Longrightarrow> LF \<in> set f \<or> CR \<in> set f" .
  qed
  show "LF \<in> set f \<or> CR \<in> set f \<Longrightarrow> LF \<in> set (newline_decode False f)"
    by (induction f) auto
qed

lemma special_chars_distinct:
  "COMMA \<noteq> CR" "COMMA \<noteq> LF" "QUOTE \<noteq> CR" "QUOTE \<noteq> LF" "COMMA \<noteq> QUOTE" "CR \<noteq> LF"
  by (simp_all add: COMMA_def QUOTE_def CR_def LF_def)

lemma needs_quoting_decoded:
  "needs_quoting (newline_decode False f) = needs_quoting f"
  using special_chars_distinct
  by (auto simp: needs_quoting_iff newline_decode_lf newline_decode_has_no_cr
      newline_decode_other)

lemma newline_decode_quoted:
  "newline_decode b (join_append_data f @ QUOTE # rest)
     = join_append_data (newline_decode b f) @ QUOTE # newline_decode False rest"
  by (induction f arbitrary: b) (auto simp: QUOTE_def CR_def LF_def)

lemma newline_decode_field:
  "newline_decode False (join_append f @ rest)
     = join_append (newline_decode False f) @ newline_decode False rest"
proof (cases "needs_quoting f")
  case True
  have "newline_decode False (QUOTE # join_append_data f @ QUOTE # rest)
      = QUOTE # join_append_data (newline_decode False f) @ QUOTE # newline_decode False rest"
    using newline_decode_quoted [of False f rest] by (simp add: QUOTE_def CR_def LF_def)
  with True show ?thesis
    by (simp add: join_append_def needs_quoting_decoded)
next
  case False
  then have cr: "CR \<notin> set f"
    by (simp add: needs_quoting_iff)
  then have "f \<noteq> [] \<Longrightarrow> last f \<noteq> CR"
    using last_in_set by metis
  with False cr show ?thesis
    by (auto simp: join_append_def needs_quoting_decoded newline_decode_append
        newline_decode_no_cr)
qed

lemma newline_decode_fields:
  "newline_decode False (join_fields row @ CR # LF # rest)
     = join_fields (map (newline_decode False) row) @ LF # newline_decode False rest"
proof (induction row rule: join_fields.induct)
  case 1
  show ?case by (simp add: CR_def LF_def)
next
  case (2 f)
  show ?case by (simp add: newline_decode_field) (simp add: CR_def LF_def)
next
  case (3 f g fs)
  have "newline_decode False (COMMA # rest') = COMMA # newline_decode False rest'" for rest'
    by (simp add: COMMA_def CR_def LF_def)
  with 3 show ?case by (simp add: newline_decode_field)
qed

lemma newline_decode_rows:
  assumes "\<forall>row\<in>set rows. row \<noteq> [[]]"
  shows "newline_decode False (concat (map writerow rows))
     = concat (map (\<lambda>row. join_fields (map (newline_decode False) row) @ [LF]) rows)"
  using assms
proof (induction rows)
  case Nil
  show ?case by simp
next
  case (Cons row rows)
  then have "writerow row @ concat (map writerow rows)
      = join_fields row @ CR # LF # concat (map writerow rows)"
    by (simp add: writerow_def)
  with Cons show ?case
    by (simp add: newline_decode_fields)
qed

section \<open>The reader on lines and on the text\<close>

lemma process_chars_append:
  "process_chars r (xs @ ys)
     = (case process_chars r xs of Inl e \<Rightarrow> Inl e | Inr r' \<Rightarrow> process_chars r' ys)"
  by (induction xs arbitrary: r) (auto split: sum.splits)

lemma readlines_from_first:
  "cur \<noteq> [] \<Longrightarrow> \<exists>more lines. readlines_from cur body = (cur @ more) # lines"
proof (induction body arbitrary: cur)
  case Nil
  then show ?case by simp
next
  case (Cons c cs)
  show ?case
  proof (cases "c = LF")
    case True
    then show ?thesis by simp
  next
    case False
    from Cons.IH [of "cur @ [c]"] obtain more lines
      where "readlines_from (cur @ [c]) cs = ((cur @ [c]) @ more) # lines"
      by auto
    with False show ?thesis by simp
  qed
qed

lemma reader_rows_failed_line:
  assumes "process_chars r cur = Inl e"
  shows "reader_rows r (readlines_from cur body) = ([], Some e)"
proof -
  from assms have "cur \<noteq> []" by auto
  then obtain more lines where l: "readlines_from cur body = (cur @ more) # lines"
    using readlines_from_first by blast
  from assms show ?thesis
    unfolding l by (simp add: process_line_def process_chars_append)
qed

text \<open>
  The reader on the lines of a text does what \<open>stream_rows\<close> does on the text; \<open>cur\<close> is
  the part of the current line that is read already and \<open>r'\<close> the state after it.
\<close>

lemma reader_rows_stream:
  assumes "process_chars r cur = Inr r'"
  shows "reader_rows r (readlines_from cur body) = stream_rows r' (cur \<noteq> []) body"
  using assms
proof (induction body arbitrary: r cur r')
  case Nil
  then show ?case
    by (auto simp: process_line_def split: sum.splits)
next
  case (Cons c cs)
  show ?case
  proof (cases "parse_process_char r' (Some c)")
    case (Inl e)
    with Cons.prems have bad: "process_chars r (cur @ [c]) = Inl e"
      by (simp add: process_chars_append)
    show ?thesis
    proof (cases "c = LF")
      case True
      with bad Inl show ?thesis
        by (simp add: process_line_def)
    next
      case False
      with Inl reader_rows_failed_line [OF bad, of cs] show ?thesis
        by simp
    qed
  next
    case (Inr r1)
    with Cons.prems have good: "process_chars r (cur @ [c]) = Inr r1"
      by (simp add: process_chars_append)
    show ?thesis
    proof (cases "c = LF")
      case True
      show ?thesis
      proof (cases "parse_process_char r1 None")
        case (Inl e)
        with True Inr good show ?thesis
          by (simp add: process_line_def)
      next
        case r2: (Inr r2)
        have a: "reader_rows parse_reset (readlines_from [] cs) = stream_rows parse_reset False cs"
          using Cons.IH [of parse_reset "[]" parse_reset] by simp
        have b: "reader_rows r2 (readlines_from [] cs) = stream_rows r2 False cs"
          using Cons.IH [of r2 "[]" r2] by simp
        from True Inr good r2 a b show ?thesis
          by (simp add: process_line_def)
      qed
    next
      case False
      with Inr Cons.IH [OF good] show ?thesis
        by simp
    qed
  qed
qed

lemma open_r_stream:
  "reader_rows parse_reset (open_r body)
     = stream_rows parse_reset False (universal_newlines body)"
  using reader_rows_stream [of parse_reset "[]" parse_reset]
  by (simp add: open_r_def)

section \<open>Reading back what the writer wrote\<close>

lemmas parser_step = parse_process_char_def start_field_def add_then_def save_then_def
  parse_add_char_def parse_save_field_def

lemma stream_in_field:
  assumes "\<not> needs_quoting xs" and "length f + length xs \<le> field_limit"
  shows "stream_rows \<lparr>r_fields = fs, r_field = f, r_state = IN_FIELD\<rparr> mid (xs @ rest)
     = stream_rows \<lparr>r_fields = fs, r_field = f @ xs, r_state = IN_FIELD\<rparr> (mid \<or> xs \<noteq> []) rest"
  using assms
proof (induction xs arbitrary: f mid)
  case Nil
  show ?case by simp
next
  case (Cons c cs)
  from Cons.prems have step:
    "parse_process_char \<lparr>r_fields = fs, r_field = f, r_state = IN_FIELD\<rparr> (Some c)
       = Inr \<lparr>r_fields = fs, r_field = f @ [c], r_state = IN_FIELD\<rparr>"
    by (simp add: parser_step)
  from Cons.prems have "c \<noteq> LF" by simp
  with step Cons.IH [of "f @ [c]" True] Cons.prems show ?case
    by simp
qed

text \<open>An unquoted field, from the start of a record or of a field, up to its delimiter.\<close>

lemma stream_unquoted_comma:
  assumes "\<not> needs_quoting g" and "length g \<le> field_limit"
    and "st = START_RECORD \<or> st = START_FIELD"
  shows "stream_rows \<lparr>r_fields = fs, r_field = [], r_state = st\<rparr> mid (g @ COMMA # rest)
     = stream_rows \<lparr>r_fields = fs @ [g], r_field = [], r_state = START_FIELD\<rparr> True rest"
proof (cases g)
  case Nil
  with assms(3) special_chars_distinct show ?thesis
    by (auto simp: parser_step)
next
  case (Cons c cs)
  with assms have c: "c \<noteq> COMMA" "c \<noteq> QUOTE" "c \<noteq> CR" "c \<noteq> LF"
    and cs: "\<not> needs_quoting cs" "length [c] + length cs \<le> field_limit"
    by auto
  have first: "parse_process_char \<lparr>r_fields = fs, r_field = [], r_state = st\<rparr> (Some c)
       = Inr \<lparr>r_fields = fs, r_field = [c], r_state = IN_FIELD\<rparr>"
    using assms(3) c by (auto simp: parser_step field_limit_def)
  have last: "stream_rows \<lparr>r_fields = fs, r_field = [c] @ cs, r_state = IN_FIELD\<rparr> True
        (COMMA # rest)
     = stream_rows \<lparr>r_fields = fs @ [g], r_field = [], r_state = START_FIELD\<rparr> True rest"
    using special_chars_distinct Cons by (simp add: parser_step)
  from first c(4) stream_in_field [OF cs, of fs True "COMMA # rest"] last Cons
  show ?thesis by simp
qed

lemma stream_unquoted_eol:
  assumes "\<not> needs_quoting g" and "length g \<le> field_limit"
    and "st = START_FIELD \<or> (st = START_RECORD \<and> g \<noteq> [])"
  shows "stream_rows \<lparr>r_fields = fs, r_field = [], r_state = st\<rparr> mid (g @ LF # rest)
     = push_row (fs @ [g]) (stream_rows parse_reset False rest)"
proof (cases g)
  case Nil
  with assms(3) show ?thesis
    by (simp add: parser_step)
next
  case (Cons c cs)
  with assms have c: "c \<noteq> COMMA" "c \<noteq> QUOTE" "c \<noteq> CR" "c \<noteq> LF"
    and cs: "\<not> needs_quoting cs" "length [c] + length cs \<le> field_limit"
    by auto
  have first: "parse_process_char \<lparr>r_fields = fs, r_field = [], r_state = st\<rparr> (Some c)
       = Inr \<lparr>r_fields = fs, r_field = [c], r_state = IN_FIELD\<rparr>"
    using assms(3) c by (auto simp: parser_step field_limit_def)
  have last: "stream_rows \<lparr>r_fields = fs, r_field = [c] @ cs, r_state = IN_FIELD\<rparr> True
        (LF # rest)
     = push_row (fs @ [g]) (stream_rows parse_reset False rest)"
    using Cons by (simp add: parser_step)
  from first c(4) stream_in_field [OF cs, of fs True "LF # rest"] last Cons
  show ?thesis by simp
qed

text \<open>The text of a quoted field after its opening quote, up to its closing quote.\<close>

lemma stream_in_quoted_field:
  assumes "length f + length g \<le> field_limit"
  shows "stream_rows \<lparr>r_fields = fs, r_field = f, r_state = IN_QUOTED_FIELD\<rparr> mid
        (join_append_data g @ QUOTE # rest)
     = stream_rows \<lparr>r_fields = fs, r_field = f @ g, r_state = QUOTE_IN_QUOTED_FIELD\<rparr> True rest"
  using assms
proof (induction g arbitrary: f mid)
  case Nil
  from special_chars_distinct show ?case
    by (simp add: parser_step)
next
  case (Cons c cs)
  from Cons.prems have len: "length f < field_limit" "length (f @ [c]) + length cs \<le> field_limit"
    by auto
  show ?case
  proof (cases "c = QUOTE")
    case True
    with len(1) special_chars_distinct Cons.IH [OF len(2), of True] show ?thesis
      by (simp add: parser_step)
  next
    case False
    show ?thesis
    proof (cases "c = LF")
      case True
      with False len(1) Cons.IH [OF len(2), of False] show ?thesis
        by (simp add: parser_step)
    next
      case lf: False
      with False len(1) Cons.IH [OF len(2), of True] show ?thesis
        by (simp add: parser_step)
    qed
  qed
qed

lemma stream_quoted_comma:
  assumes "length g \<le> field_limit" and "st = START_RECORD \<or> st = START_FIELD"
  shows "stream_rows \<lparr>r_fields = fs, r_field = [], r_state = st\<rparr> mid
        (QUOTE # join_append_data g @ QUOTE # COMMA # rest)
     = stream_rows \<lparr>r_fields = fs @ [g], r_field = [], r_state = START_FIELD\<rparr> True rest"
proof -
  have first: "parse_process_char \<lparr>r_fields = fs, r_field = [], r_state = st\<rparr> (Some QUOTE)
       = Inr \<lparr>r_fields = fs, r_field = [], r_state = IN_QUOTED_FIELD\<rparr>"
    using assms(2) special_chars_distinct by (auto simp: parser_step)
  have len: "length ([] :: string) + length g \<le> field_limit"
    using assms(1) by simp
  from first special_chars_distinct stream_in_quoted_field [OF len, of fs True "COMMA # rest"]
  show ?thesis by (simp add: parser_step)
qed

lemma stream_quoted_eol:
  assumes "length g \<le> field_limit" and "st = START_RECORD \<or> st = START_FIELD"
  shows "stream_rows \<lparr>r_fields = fs, r_field = [], r_state = st\<rparr> mid
        (QUOTE # join_append_data g @ QUOTE # LF # rest)
     = push_row (fs @ [g]) (stream_rows parse_reset False rest)"
proof -
  have first: "parse_process_char \<lparr>r_fields = fs, r_field = [], r_state = st\<rparr> (Some QUOTE)
       = Inr \<lparr>r_fields = fs, r_field = [], r_state = IN_QUOTED_FIELD\<rparr>"
    using assms(2) special_chars_distinct by (auto simp: parser_step)
  have len: "length ([] :: string) + length g \<le> field_limit"
    using assms(1) by simp
  from first special_chars_distinct stream_in_quoted_field [OF len, of fs True "LF # rest"]
  show ?thesis by (simp add: parser_step)
qed

text \<open>A field as the writer writes it, quoted or not.\<close>

lemma stream_field_comma:
  assumes "length g \<le> field_limit" and "st = START_RECORD \<or> st = START_FIELD"
  shows "stream_rows \<lparr>r_fields = fs, r_field = [], r_state = st\<rparr> mid
        (join_append g @ COMMA # rest)
     = stream_rows \<lparr>r_fields = fs @ [g], r_field = [], r_state = START_FIELD\<rparr> True rest"
  using assms stream_quoted_comma [of g st fs mid rest] stream_unquoted_comma [of g st fs mid rest]
  by (simp add: join_append_def)

lemma stream_field_eol:
  assumes "length g \<le> field_limit"
    and "st = START_FIELD \<or> (st = START_RECORD \<and> g \<noteq> [])"
  shows "stream_rows \<lparr>r_fields = fs, r_field = [], r_state = st\<rparr> mid
        (join_append g @ LF # rest)
     = push_row (fs @ [g]) (stream_rows parse_reset False rest)"
  using assms stream_quoted_eol [of g st fs mid rest] stream_unquoted_eol [of g st fs mid rest]
  by (auto simp: join_append_def)

text \<open>A row of at least one field, other than the row of one empty field.\<close>

lemma stream_fields:
  assumes "row \<noteq> []" and "\<forall>g\<in>set row. length g \<le> field_limit"
    and "st = START_FIELD \<or> (st = START_RECORD \<and> row \<noteq> [[]])"
  shows "stream_rows \<lparr>r_fields = fs, r_field = [], r_state = st\<rparr> mid
        (join_fields row @ LF # rest)
     = push_row (fs @ row) (stream_rows parse_reset False rest)"
  using assms
proof (induction row arbitrary: fs st mid rule: join_fields.induct)
  case 1
  then show ?case by simp
next
  case (2 f)
  then show ?case
    using stream_field_eol [of f st fs mid rest] by auto
next
  case (3 f g gs)
  have st: "st = START_RECORD \<or> st = START_FIELD"
    using "3.prems"(3) by auto
  have "stream_rows \<lparr>r_fields = fs, r_field = [], r_state = st\<rparr> mid
        (join_fields (f # g # gs) @ LF # rest)
     = stream_rows \<lparr>r_fields = fs @ [f], r_field = [], r_state = START_FIELD\<rparr> True
         (join_fields (g # gs) @ LF # rest)"
    using stream_field_comma [of f st fs mid "join_fields (g # gs) @ LF # rest"] st "3.prems"(2)
    by simp
  also have "\<dots> = push_row ((fs @ [f]) @ g # gs) (stream_rows parse_reset False rest)"
    using "3.IH" [where fs = "fs @ [f]" and st = START_FIELD and mid = True] "3.prems"(2)
    by simp
  finally show ?case by simp
qed

lemma stream_written_rows:
  assumes "\<forall>row\<in>set rows. row \<noteq> [] \<and> row \<noteq> [[]] \<and> (\<forall>g\<in>set row. length g \<le> field_limit)"
  shows "stream_rows parse_reset False (concat (map (\<lambda>row. join_fields row @ [LF]) rows))
     = (rows, None)"
  using assms
proof (induction rows)
  case Nil
  show ?case by (simp add: parse_reset_def)
next
  case (Cons row rows)
  then have "stream_rows \<lparr>r_fields = [], r_field = [], r_state = START_RECORD\<rparr> False
        (join_fields row @ LF # concat (map (\<lambda>row. join_fields row @ [LF]) rows))
     = push_row ([] @ row)
         (stream_rows parse_reset False (concat (map (\<lambda>row. join_fields row @ [LF]) rows)))"
    using stream_fields [of row START_RECORD "[]" False] by simp
  with Cons show ?case
    by (simp add: parse_reset_def push_row_def)
qed

section \<open>Stores the program has written\<close>

lemma newline_decode_empty: "newline_decode False g = [] \<longleftrightarrow> g = []"
  by (cases g) auto

text \<open>
  What the reader yields on the rows the writer wrote: the same rows, with the line breaks
  inside the fields turned into LF.
\<close>

lemma read_written_rows:
  assumes "\<forall>row\<in>set rows. row \<noteq> [] \<and> row \<noteq> [[]] \<and> (\<forall>g\<in>set row. length g \<le> field_limit)"
  shows "reader_rows parse_reset (open_r (concat (map writerow rows)))
     = (map (map universal_newlines) rows, None)"
proof -
  let ?rows = "map (map (newline_decode False)) rows"
  have decoded: "newline_decode False (concat (map writerow rows))
      = concat (map (\<lambda>row. join_fields row @ [LF]) ?rows)"
    using assms by (simp add: newline_decode_rows comp_def)
  have ok: "\<forall>row\<in>set ?rows. row \<noteq> [] \<and> row \<noteq> [[]]
      \<and> (\<forall>g\<in>set row. length g \<le> field_limit)"
  proof
    fix row'
    assume "row' \<in> set ?rows"
    then obtain row where row: "row \<in> set rows" "row' = map (newline_decode False) row"
      by auto
    with assms have a: "row \<noteq> []" "row \<noteq> [[]]" "\<forall>g\<in>set row. length g \<le> field_limit"
      by auto
    have "row' \<noteq> [[]]"
    proof
      assume "row' = [[]]"
      with row(2) obtain g where "row = [g]" "newline_decode False g = []"
        by (cases row) auto
      with a(2) show False by (simp add: newline_decode_empty)
    qed
    moreover have "\<forall>g\<in>set row'. length g \<le> field_limit"
      using row(2) a(3) newline_decode_length [of False] by (auto intro: order_trans)
    ultimately show "row' \<noteq> [] \<and> row' \<noteq> [[]] \<and> (\<forall>g\<in>set row'. length g \<le> field_limit)"
      using row(2) a(1) by simp
  qed
  have "reader_rows parse_reset (open_r (concat (map writerow rows)))
      = stream_rows parse_reset False (concat (map (\<lambda>row. join_fields row @ [LF]) ?rows))"
    by (simp add: open_r_stream universal_newlines_def decoded)
  also have "\<dots> = (?rows, None)"
    by (rule stream_written_rows [OF ok])
  finally show ?thesis
    by (simp add: universal_newlines_def [abs_def])
qed

lemma make_row_four: "make_row HEADER [d, c, n, t] = stored d c n t"
  by (simp add: make_row_def HEADER_def stored_def)

lemma stored_row_make_row: "stored_row row = make_row HEADER row"
  by (cases row rule: stored_row.cases) (simp_all add: make_row_four)

lemma header_decoded: "map universal_newlines HEADER = HEADER"
  by (simp add: HEADER_def universal_newlines_def CR_def LF_def)

lemma header_lengths: "\<forall>g\<in>set HEADER. length g \<le> field_limit"
  by (simp add: HEADER_def field_limit_def)

lemma record_rows_iff:
  "record_rows rows
     \<longleftrightarrow> (\<forall>row\<in>set rows. length row = 4 \<and> (\<forall>g\<in>set row. length g \<le> field_limit))"
  by (simp add: record_rows_def list_all_iff)

lemma record_rows_decoded: "record_rows rows \<Longrightarrow> record_rows (map (map universal_newlines) rows)"
  using newline_decode_length [of False]
  by (auto simp: record_rows_iff universal_newlines_def intro: order_trans)

text \<open>The records \<^verbatim>\<open>DictReader\<close> yields on a store the program has written.\<close>

lemma DictReader_store:
  assumes "record_rows rows"
  shows "DictReader (open_r (store_text rows))
     = (map (\<lambda>row. stored_row (map universal_newlines row)) rows, None)"
proof -
  have ok: "\<forall>row\<in>set (HEADER # rows). row \<noteq> [] \<and> row \<noteq> [[]]
      \<and> (\<forall>g\<in>set row. length g \<le> field_limit)"
    using assms header_lengths by (auto simp: record_rows_iff HEADER_def)
  have "reader_rows parse_reset (open_r (store_text rows))
      = (HEADER # map (map universal_newlines) rows, None)"
    using read_written_rows [OF ok] by (simp add: store_text_def header_decoded)
  moreover have "filter (\<lambda>row. row \<noteq> []) (map (map universal_newlines) rows)
      = map (map universal_newlines) rows"
    using assms by (auto simp: record_rows_iff filter_id_conv)
  ultimately show ?thesis
    by (simp add: DictReader_def stored_row_make_row comp_def)
qed

lemma setdefault_stored_row:
  "setdefault (stored_row row) ''Category'' ''Other'' = stored_row row"
  using make_row_keys [of HEADER row "''Category''"]
  by (simp add: setdefault_def stored_row_make_row HEADER_def)

lemma read_all_store:
  assumes "files w (user_file user_id) = Some (store_text rows)" and "record_rows rows"
  shows "read_all_activities user_id w
     = (map (\<lambda>row. stored_row (map universal_newlines row)) rows, w)"
  using assms
  by (simp add: read_all_activities_def DictReader_store setdefault_stored_row)

text \<open>
  Claim C3. For every store the program has written, \<^verbatim>\<open>read_activities_for_today\<close> returns,
  without an exception and without a message box, exactly the records of
  \<^verbatim>\<open>read_all_activities\<close> whose date is the current date, in the same order.
\<close>

theorem read_today_is_todays_part:
  assumes "files w (user_file user_id) = Some (store_text rows)" and "record_rows rows"
  shows "read_activities_for_today today user_id w
     = (Inr (filter (\<lambda>a. getitem a ''Date'' = Inr (Some today))
               (fst (read_all_activities user_id w))), w)"
proof (rule read_today_is_filter [OF assms(1)])
  show "DictReader (open_r (store_text rows))
      = (map (\<lambda>row. stored_row (map universal_newlines row)) rows, None)"
    by (rule DictReader_store [OF assms(2)])
  have "\<exists>d. getitem (stored_row row) ''Date'' = Inr d" for row
    unfolding stored_row_make_row
    by (rule getitem_make_row) (simp add: HEADER_def)
  then show "\<forall>row\<in>set (map (\<lambda>row. stored_row (map universal_newlines row)) rows).
      \<exists>d. getitem row ''Date'' = Inr d"
    by auto
qed

lemma two_days_record_rows:
  "record_rows [[''2024-01-01'', ''Work'', ''Email'', ''30''], [''2024-01-02'', ''Work'', ''Call'', ''40'']]"
  by (simp add: record_rows_def field_limit_def)

lemma two_days_file:
  "files two_days (user_file ''u'')
     = Some (store_text [[''2024-01-01'', ''Work'', ''Email'', ''30''], [''2024-01-02'', ''Work'', ''Call'', ''40'']])"
  by (simp add: two_days_def)

theorem read_today_is_todays_part_witness:
  "files two_days (user_file ''u'')
     = Some (store_text [[''2024-01-01'', ''Work'', ''Email'', ''30''], [''2024-01-02'', ''Work'', ''Call'', ''40'']])
   \<and> record_rows [[''2024-01-01'', ''Work'', ''Email'', ''30''], [''2024-01-02'', ''Work'', ''Call'', ''40'']]
   \<and> fst (read_all_activities ''u'' two_days)
       = [stored ''2024-01-01'' ''Work'' ''Email'' ''30'', stored ''2024-01-02'' ''Work'' ''Call'' ''40'']
   \<and> read_activities_for_today ''2024-01-02'' ''u'' two_days
       = (Inr [stored ''2024-01-02'' ''Work'' ''Call'' ''40''], two_days)"
  using read_today_is_todays_part [OF two_days_file two_days_record_rows, of "''2024-01-02''"]
    two_days_file two_days_record_rows
  by (simp add: two_days_all) (simp add: getitem_def stored_def)

section \<open>Writing back what was read\<close>

lemma activity_row_stored: "activity_row (stored d c n t) = Inr [d, c, n, t]"
  by (simp add: activity_row_def getitem_def stored_def field_text_def)

lemma four_fields: "length (row :: string list) = 4 \<Longrightarrow> \<exists>d c n t. row = [d, c, n, t]"
  by (cases row rule: stored_row.cases) auto

lemma write_rows_stored:
  assumes "\<forall>row\<in>set rows. length row = 4"
  shows "write_rows out (map stored_row rows) = (None, out @ concat (map writerow rows))"
  using assms
proof (induction rows arbitrary: out)
  case Nil
  show ?case by simp
next
  case (Cons row rows)
  then obtain d c n t where "row = [d, c, n, t]"
    using four_fields [of row] by auto
  with Cons show ?case
    by (simp add: activity_row_stored)
qed

lemma write_activities_stored:
  assumes "\<forall>row\<in>set rows. length row = 4" and "files w (user_file user_id) \<noteq> None"
  shows "write_activities (map stored_row rows) user_id w
     = (None, w\<lparr>files := (files w)(user_file user_id \<mapsto> store_text rows)\<rparr>)"
  using write_rows_stored [OF assms(1), of "writerow HEADER"]
  by (simp add: write_activities_existing [OF assms(2)] store_text_def)

lemma universal_newlines_idem:
  "universal_newlines (universal_newlines g) = universal_newlines g"
  by (simp add: universal_newlines_def newline_decode_idem)

lemma universal_newlines_no_cr: "CR \<notin> set g \<Longrightarrow> universal_newlines g = g"
  by (simp add: universal_newlines_def newline_decode_no_cr)

text \<open>
  Claim C4. For every store the program has written, writing back the unmodified result
  of \<^verbatim>\<open>read_all_activities\<close> raises nothing and leaves a store \<open>w'\<close> on which
  \<^verbatim>\<open>read_all_activities\<close> returns the same records in the same order and shows no message
  box. The file then holds the rows as they were read; when no field holds a carriage
  return the store is unchanged altogether.
\<close>

theorem write_after_read_round_trip:
  fixes w :: world
  defines "w' \<equiv> \<lambda>user_id rows.
     w\<lparr>files := (files w)(user_file user_id \<mapsto> store_text (map (map universal_newlines) rows))\<rparr>"
  assumes "files w (user_file user_id) = Some (store_text rows)" and "record_rows rows"
  shows "write_activities (fst (read_all_activities user_id w)) user_id
           (snd (read_all_activities user_id w)) = (None, w' user_id rows)
     \<and> read_all_activities user_id (w' user_id rows)
           = (fst (read_all_activities user_id w), w' user_id rows)
     \<and> (list_all (list_all (\<lambda>g. CR \<notin> set g)) rows \<longrightarrow> w' user_id rows = w)"
proof -
  let ?rows = "map (map universal_newlines) rows"
  have all: "read_all_activities user_id w = (map stored_row ?rows, w)"
    using read_all_store [OF assms(2,3)] by (simp add: comp_def)
  have four: "\<forall>row\<in>set ?rows. length row = 4"
    using assms(3) by (auto simp: record_rows_iff)
  have written: "write_activities (map stored_row ?rows) user_id w = (None, w' user_id rows)"
    using write_activities_stored [OF four, of w user_id] assms(2) by (simp add: w'_def)
  have holds: "files (w' user_id rows) (user_file user_id) = Some (store_text ?rows)"
    by (simp add: w'_def)
  have again: "read_all_activities user_id (w' user_id rows)
      = (map stored_row ?rows, w' user_id rows)"
    using read_all_store [OF holds record_rows_decoded [OF assms(3)]]
    by (simp add: comp_def universal_newlines_idem)
  have same: "w' user_id rows = w" if "list_all (list_all (\<lambda>g. CR \<notin> set g)) rows"
  proof -
    from that have "?rows = rows"
      by (auto simp: list_all_iff universal_newlines_no_cr intro!: map_idI)
    with assms(2) show ?thesis
      by (simp add: w'_def fun_upd_idem)
  qed
  from all written again same show ?thesis by simp
qed

lemma two_days_no_cr:
  "list_all (list_all (\<lambda>g. CR \<notin> set g))
     [[''2024-01-01'', ''Work'', ''Email'', ''30''], [''2024-01-02'', ''Work'', ''Call'', ''40'']]"
  by (simp add: CR_def)

theorem write_after_read_round_trip_witness:
  "files two_days (user_file ''u'')
     = Some (store_text [[''2024-01-01'', ''Work'', ''Email'', ''30''], [''2024-01-02'', ''Work'', ''Call'', ''40'']])
   \<and> record_rows [[''2024-01-01'', ''Work'', ''Email'', ''30''], [''2024-01-02'', ''Work'', ''Call'', ''40'']]
   \<and> write_activities (fst (read_all_activities ''u'' two_days)) ''u''
        (snd (read_all_activities ''u'' two_days)) = (None, two_days)
   \<and> fst (read_all_activities ''u'' two_days)
       = [stored ''2024-01-01'' ''Work'' ''Email'' ''30'', stored ''2024-01-02'' ''Work'' ''Call'' ''40'']"
  using write_after_read_round_trip [OF two_days_file two_days_record_rows]
    two_days_file two_days_record_rows two_days_no_cr
  by (simp add: two_days_all)

section \<open>Appending and reading back\<close>

lemma store_text_append:
  "store_text rows @ writerow row = store_text (rows @ [row])"
  by (simp add: store_text_def)

lemma add_activities_store:
  assumes "files w (user_file user_id) = Some (store_text rows)"
    and "\<forall>s\<in>set ss. strip (s_text s) \<noteq> []"
  shows "files (add_activities ss user_id w) (user_file user_id)
       = Some (store_text (rows @ map submitted ss))
     \<and> dialogs (add_activities ss user_id w) = dialogs w"
  using assms
proof (induction ss arbitrary: w rows)
  case Nil
  then show ?case by simp
next
  case (Cons s ss)
  let ?next =
    "snd (add_activity (s_category s) (s_text s) (s_duration s) (s_today s) user_id w)"
  have step: "files ?next (user_file user_id) = Some (store_text (rows @ [submitted s]))"
    "dialogs ?next = dialogs w"
    using Cons.prems
    by (simp_all add: add_activity_def open_for_writing_def store_text_append submitted_def)
  from Cons.IH [OF step(1)] Cons.prems(2) step(2) show ?case
    by simp
qed

text \<open>
  Without carriage returns the appended records do come back: submissions with a name
  that is not blank, appended to a freshly initialized store, are all read back, in the
  order of their submission and with no message box, provided no field holds a carriage
  return (and none exceeds the reader's field limit).
\<close>

lemma appended_records_read_back:
  assumes "files w (user_file user_id) = None"
    and "create_error (w\<lparr>data_dir := True\<rparr>) (user_file user_id) = None"
    and "\<forall>s\<in>set ss. strip (s_text s) \<noteq> []"
    and "record_rows (map submitted ss)"
    and "\<forall>s\<in>set ss. \<forall>g\<in>set (submitted s). CR \<notin> set g"
  shows "read_all_activities user_id
       (add_activities ss user_id (snd (initialize_csv user_id w)))
     = (map (\<lambda>s. stored_row (submitted s)) ss,
        add_activities ss user_id (snd (initialize_csv user_id w)))"
proof -
  let ?start = "snd (initialize_csv user_id w)"
  let ?final = "add_activities ss user_id ?start"
  have "files ?start (user_file user_id) = Some (store_text [])"
    using assms(1,2) by (simp add: initialize_csv_def store_text_def)
  from add_activities_store [OF this assms(3)]
  have "files ?final (user_file user_id) = Some (store_text (map submitted ss))"
    by (simp del: add_activities.simps)
  from read_all_store [OF this assms(4)]
  have "read_all_activities user_id ?final
      = (map (\<lambda>row. stored_row (map universal_newlines row)) (map submitted ss), ?final)" .
  moreover have "map universal_newlines (submitted s) = submitted s" if "s \<in> set ss" for s
    using that assms(5) by (auto simp: universal_newlines_no_cr intro!: map_idI)
  ultimately show ?thesis
    by (simp add: comp_def cong: map_cong)
qed

section \<open>What a deletion leaves in the store\<close>

lemma stored_row_decoded_again:
  assumes "row \<in> set (map (map universal_newlines) rows)"
  shows "map universal_newlines row = row"
proof -
  from assms obtain r where "row = map universal_newlines r" by auto
  then show ?thesis by (simp add: universal_newlines_idem)
qed

text \<open>
  For every store the program has written, a confirmed deletion of a row of the table
  leaves in the file the records of the current day without the deleted one, and nothing
  else: every record of another day is dropped.
\<close>

lemma delete_keeps_only_today:
  fixes rows :: "string list list" and today :: string
  defines "todays \<equiv>
     filter (\<lambda>row. getitem (stored_row row) ''Date'' = Inr (Some today))
       (map (map universal_newlines) rows)"
  assumes "files w (user_file user_id) = Some (store_text rows)" and "record_rows rows"
    and "row_idx < length todays"
  shows "fst (delete_activity row_idx True today user_id w) = None
     \<and> fst (read_all_activities user_id (snd (delete_activity row_idx True today user_id w)))
         = map stored_row (take row_idx todays @ drop (Suc row_idx) todays)"
proof -
  let ?decoded = "map (map universal_newlines) rows"
  let ?left = "take row_idx todays @ drop (Suc row_idx) todays"
  let ?after = "w\<lparr>files := (files w)(user_file user_id \<mapsto> store_text ?left)\<rparr>"
  have all: "fst (read_all_activities user_id w) = map stored_row ?decoded"
    using read_all_store [OF assms(2,3)] by (simp add: comp_def)
  have "filter (\<lambda>a. getitem a ''Date'' = Inr (Some today)) (map stored_row ?decoded)
      = map stored_row todays"
    unfolding todays_def filter_map comp_def ..
  with read_today_is_todays_part [OF assms(2,3), of today] all
  have today: "read_activities_for_today today user_id w = (Inr (map stored_row todays), w)"
    by simp
  have "set todays \<subseteq> set ?decoded"
    unfolding todays_def by (rule filter_is_subset)
  moreover have "set ?left \<subseteq> set todays"
    using set_take_subset [of row_idx todays] set_drop_subset [of "Suc row_idx" todays]
    by (simp only: set_append Un_least)
  ultimately have sub: "set ?left \<subseteq> set ?decoded"
    by (rule order_trans [rotated])
  have "record_rows ?decoded"
    by (rule record_rows_decoded [OF assms(3)])
  with sub have left_rows: "record_rows ?left"
    unfolding record_rows_iff by blast
  then have four: "\<forall>row\<in>set ?left. length row = 4"
    unfolding record_rows_iff by blast
  have written: "write_activities (map stored_row ?left) user_id w = (None, ?after)"
    using assms(2) by (intro write_activities_stored [OF four]) simp
  have written': "write_activities
        (map stored_row (take row_idx todays) @ map stored_row (drop (Suc row_idx) todays))
        user_id w = (None, ?after)"
    using written by (simp only: map_append)
  have deleted: "delete_activity row_idx True today user_id w = (None, ?after)"
    unfolding delete_activity_def today using assms(4)
    by (simp add: take_map drop_map written')
  have holds: "files ?after (user_file user_id) = Some (store_text ?left)"
    by simp
  have "map (\<lambda>row. stored_row (map universal_newlines row)) ?left = map stored_row ?left"
  proof (rule map_cong [OF refl])
    fix row
    assume "row \<in> set ?left"
    with sub have "row \<in> set ?decoded" by blast
    then show "stored_row (map universal_newlines row) = stored_row row"
      by (simp only: stored_row_decoded_again)
  qed
  with read_all_store [OF holds left_rows]
  have "read_all_activities user_id ?after = (map stored_row ?left, ?after)"
    by (simp only:)
  with deleted show ?thesis
    by (simp only: fst_conv snd_conv simp_thms)
qed

end
